theory Spec2Isabelle
  imports
    Main
    "HOL-Library.Char_ord"
    "HOL-Library.List_Lexorder"
    "HOL-Library.Product_Lexorder"
begin

section \<open>The objects of pkg/jx/cmd/get_build_logs.go\<close>

subsection \<open>Pods\<close>

text \<open>
  The part of a Kubernetes pod that \<^verbatim>\<open>getProwBuildLog\<close> and
  \<^verbatim>\<open>waitForInitContainerToStart\<close> read: \<^verbatim>\<open>pod.Name\<close>,
  \<^verbatim>\<open>pod.Spec.InitContainers\<close>, \<^verbatim>\<open>pod.Status.Phase\<close> and
  \<^verbatim>\<open>pod.Status.InitContainerStatuses\<close> (each with \<^verbatim>\<open>Name\<close> and
  \<^verbatim>\<open>State.Terminated\<close>).
\<close>

datatype PodPhase = PodPending | PodRunning | PodSucceeded | PodFailed | PodUnknown

record ContainerStateTerminated =
  ExitCode :: int
  Message :: string

record ContainerStatus =
  cs_Name :: string
  cs_Started :: bool
  cs_Terminated :: "ContainerStateTerminated option"

record Container =
  c_Name :: string

record Pod =
  pod_Name :: string
  InitContainers :: "Container list"
  Phase :: PodPhase
  InitContainerStatuses :: "ContainerStatus list"

subsection \<open>Build descriptors\<close>

text \<open>
  \<^verbatim>\<open>builds.BuildPodInfo\<close> and \<^verbatim>\<open>tekton.PipelineRunInfo\<close> are declared outside
  this file; the records hold the fields the file reads (\<^verbatim>\<open>Pipeline\<close>,
  \<^verbatim>\<open>Build\<close>, \<^verbatim>\<open>Branch\<close>, \<^verbatim>\<open>Pod\<close>, \<^verbatim>\<open>PipelineRun\<close>, the stages)
  and the build number the sort order of the specification compares.
  \<^verbatim>\<open>builds.BaseBuildInfo\<close> is the interface both implement; the type assertions
  \<^verbatim>\<open>build.(*tekton.PipelineRunInfo)\<close> and \<^verbatim>\<open>build.(*builds.BuildPodInfo)\<close>
  become a case distinction on the constructor.
\<close>

record BuildPodInfo =
  bp_Pipeline :: string
  bp_Build :: string
  bp_BuildNumber :: int
  bp_Branch :: string
  bp_Pod :: "Pod option"

record StageInfo =
  st_Name :: string
  st_Parents :: "string list"
  st_Pod :: "Pod option"

record PipelineRunInfo =
  pr_Pipeline :: string
  pr_Build :: string
  pr_BuildNumber :: int
  pr_Branch :: string
  pr_PipelineRun :: string
  pr_Stages :: "StageInfo list"

datatype BaseBuildInfo = BuildPod BuildPodInfo | PipelineRun PipelineRunInfo

fun GetPipeline :: "BaseBuildInfo \<Rightarrow> string" where
  "GetPipeline (BuildPod b) = bp_Pipeline b"
| "GetPipeline (PipelineRun p) = pr_Pipeline p"

fun GetBuild :: "BaseBuildInfo \<Rightarrow> string" where
  "GetBuild (BuildPod b) = bp_Build b"
| "GetBuild (PipelineRun p) = pr_Build p"

fun GetBuildNumber :: "BaseBuildInfo \<Rightarrow> int" where
  "GetBuildNumber (BuildPod b) = bp_BuildNumber b"
| "GetBuildNumber (PipelineRun p) = pr_BuildNumber p"

fun GetBranch :: "BaseBuildInfo \<Rightarrow> string" where
  "GetBranch (BuildPod b) = bp_Branch b"
| "GetBranch (PipelineRun p) = pr_Branch p"

text \<open>
  Modelled from the spec: \<^verbatim>\<open>GetOrderedTaskStages\<close> (package tekton, not in the
  sources). The specification gives a pipeline run an ordered sequence of stages and
  has the walker iterate them "in their fixed declaration order".
\<close>

definition GetOrderedTaskStages :: "PipelineRunInfo \<Rightarrow> StageInfo list" where
  "GetOrderedTaskStages pr = pr_Stages pr"

text \<open>
  Modelled from the spec: \<^verbatim>\<open>GetStageNameIncludingParents\<close> (package tekton, not in
  the sources). A stage has "a name, an optional parent-path (for nested stage display
  names)"; the display name is kept as the path followed by the name, unjoined.
\<close>

definition GetStageNameIncludingParents :: "StageInfo \<Rightarrow> string list" where
  "GetStageNameIncludingParents stage = st_Parents stage @ [st_Name stage]"

subsection \<open>Errors\<close>

text \<open>
  One constructor for each error the file makes with \<^verbatim>\<open>fmt.Errorf\<close>,
  \<^verbatim>\<open>errors.Wrapf\<close> or \<^verbatim>\<open>util.MissingArgument\<close>, with the values its message
  is formatted from. \<open>QueryFailure\<close> is an error returned by a collaborator (the
  cluster, the log tail, the picker); \<open>Timeout\<close> is what the retry of the
  specification ends with; \<open>Panic\<close> is a Go run-time panic.
\<close>

datatype error =
    MissingArgument string
  | QueryFailure string
  | NoKnativeBuilds
  | NoTektonPipelines
  | NoPipelineChosen
  | NoPipelineExistsYet string
  | NoPipelineFound string "string list"
  | NoPodForStageYet string string
  | NoInitContainers string string
  | NoPodFound string
  | FailedToFindPod error
  | FailedToLoadPod string error
  | Timeout nat error
  | Panic string

subsection \<open>The clock and what the command prints and calls\<close>

text \<open>
  Every line the file logs, every \<^verbatim>\<open>time.Sleep\<close>, every pod read and every log
  tail is recorded, in order. \<open>CallWaitForInitContainerToStart\<close> records the entry
  into \<^verbatim>\<open>waitForInitContainerToStart\<close>: the program prints nothing there, the
  event is kept so that the order of waits and streams can be stated.
\<close>

datatype Event =
    WarnFailedToQueryPods error
  | WarnFailedToQueryPipelineRuns error
  | WarnErrorCreatingPipelineRunInfo string error
  | WarnContainerFailed string int string
  | WarnPodHasFailed string
  | InfoWaitingForPipeline string
  | InfoNoBuildFoundIn "string list"
  | InfoBuildLogsFor string
  | InfoNoPodFoundYet string string
  | InfoWaitingForInitContainer string string
  | InfoGettingPodLog string string
  | InfoGettingStageLog string "string list" string
  | Sleep nat
  | GetPod string
  | CallWaitForInitContainerToStart string nat
  | CallTailLogs string string

record World =
  now :: nat
  trace :: "Event list"

definition emit :: "Event \<Rightarrow> World \<Rightarrow> World" where
  "emit e w = w\<lparr>trace := trace w @ [e]\<rparr>"

definition sleep :: "nat \<Rightarrow> World \<Rightarrow> World" where
  "sleep d w = w\<lparr>now := now w + d, trace := trace w @ [Sleep d]\<rparr>"

subsection \<open>The collaborators\<close>

text \<open>
  \<^verbatim>\<open>builds.BuildPodInfoFilter\<close>, with the fields the flags of lines 91 to 96 set.
\<close>

record BuildPodInfoFilter =
  f_Owner :: string
  f_Repository :: string
  f_Branch :: string
  f_Build :: string
  f_Filter :: string
  f_Pending :: bool

text \<open>
  The cluster and the other collaborators, as functions of the time of the call (in
  seconds): \<^verbatim>\<open>builds.GetBuildPods\<close>, \<^verbatim>\<open>builds.CreateBuildPodInfo\<close> (the names
  it reads off a pod), \<^verbatim>\<open>PipelineRuns(ns).List\<close> (the names of its items),
  \<^verbatim>\<open>tekton.CreatePipelineRunInfo\<close>, \<^verbatim>\<open>Pods(ns).Get\<close>,
  \<^verbatim>\<open>SetPodsForStageInfo\<close> (the pod the stage has after the call),
  \<^verbatim>\<open>TailLogs\<close> (how long the stream lasts, and its error) and
  \<^verbatim>\<open>util.PickNameWithDefault\<close>. An \<open>Inl\<close> is the message of the error returned.
  \<open>retryInterval\<close> is the interval of \<^verbatim>\<open>util.Retry\<close>. \<open>buildMatches\<close> is
  the predicate \<^verbatim>\<open>BuildFilter.BuildMatches\<close> of package builds computes, and
  \<open>gitInfo\<close> the name and organisation that \<^verbatim>\<open>gits.NewGitCLI().Info\<close> reads in
  the current directory.
\<close>

record Env =
  buildPods :: "nat \<Rightarrow> string + Pod list"
  podInfo :: "Pod \<Rightarrow> BuildPodInfo"
  pipelineRuns :: "nat \<Rightarrow> string + string list"
  createPipelineRunInfo :: "nat \<Rightarrow> string \<Rightarrow> string + PipelineRunInfo option"
  getPod :: "nat \<Rightarrow> string \<Rightarrow> string + Pod"
  stagePod :: "nat \<Rightarrow> string \<Rightarrow> string \<Rightarrow> string + Pod option"
  tailLogs :: "nat \<Rightarrow> string \<Rightarrow> string \<Rightarrow> nat \<times> string option"
  pickName :: "string list \<Rightarrow> string \<Rightarrow> string + string"
  retryInterval :: nat
  buildMatches :: "BuildPodInfoFilter \<Rightarrow> BuildPodInfo \<Rightarrow> bool"
  gitInfo :: "string + (string \<times> string)"

text \<open>
  The fields of \<^verbatim>\<open>GetBuildLogsOptions\<close> that \<^verbatim>\<open>getProwBuildLog\<close> reads.
\<close>

record Options =
  Args :: "string list"
  BatchMode :: bool
  Wait :: bool
  WaitForPipelineDuration :: nat
  CurrentFolder :: bool
  BuildFilter :: BuildPodInfoFilter

section \<open>The catalog loaders\<close>

text \<open>
  The four values \<^verbatim>\<open>loadBuilds\<close> and \<^verbatim>\<open>loadPipelines\<close> return beside the error:
  \<^verbatim>\<open>names\<close>, \<^verbatim>\<open>defaultName\<close>, \<^verbatim>\<open>buildMap\<close> and \<^verbatim>\<open>pipelineMap\<close>.
\<close>

record Catalog =
  names :: "string list"
  defaultName :: string
  buildMap :: "string \<rightharpoonup> BaseBuildInfo"
  pipelineMap :: "string \<rightharpoonup> BaseBuildInfo"

definition emptyCatalog :: Catalog where
  "emptyCatalog = \<lparr>names = [], defaultName = [], buildMap = Map.empty, pipelineMap = Map.empty\<rparr>"

definition displayName :: "BaseBuildInfo \<Rightarrow> string" where
  "displayName build = GetPipeline build @ '' #'' @ GetBuild build"

text \<open>
  The loop that ends \<^verbatim>\<open>loadBuilds\<close> (lines 469 to 478) and, with the same text,
  \<^verbatim>\<open>loadPipelines\<close> (lines 511 to 520): every descriptor appends its name, is
  stored under its name, is stored under its pipeline, and sets the default name when
  its branch is master.
\<close>

fun indexBuilds :: "BaseBuildInfo list \<Rightarrow> Catalog \<Rightarrow> Catalog" where
  "indexBuilds [] c = c"
| "indexBuilds (build # rest) c =
     (let name = displayName build;
          c1 = c\<lparr>names := names c @ [name],
                 buildMap := (buildMap c)(name \<mapsto> build),
                 pipelineMap := (pipelineMap c)(GetPipeline build \<mapsto> build)\<rparr>;
          c2 = (if GetBranch build = ''master'' then c1\<lparr>defaultName := name\<rparr> else c1)
      in indexBuilds rest c2)"

text \<open>
  Modelled from the spec: \<^verbatim>\<open>builds.SortBuildPodInfos\<close> and
  \<^verbatim>\<open>tekton.SortPipelineRunInfos\<close> (not in the sources). The specification sorts
  "by a total order (newest build number/timestamp first, ties broken by pipeline
  name)".
\<close>

definition SortBuildPodInfos :: "BuildPodInfo list \<Rightarrow> BuildPodInfo list" where
  "SortBuildPodInfos = sort_key (\<lambda>b. (- bp_BuildNumber b, bp_Pipeline b))"

definition SortPipelineRunInfos :: "PipelineRunInfo list \<Rightarrow> PipelineRunInfo list" where
  "SortPipelineRunInfos = sort_key (\<lambda>p. (- pr_BuildNumber p, pr_Pipeline p))"

text \<open>
  Modelled from the spec: \<^verbatim>\<open>builds.CreateBuildPodInfo\<close> (not in the sources). The
  legacy descriptor of the specification has "one pod": the descriptor keeps the pod
  it is made from, and its names are what the collaborator reads off the pod.
\<close>

definition CreateBuildPodInfo :: "Env \<Rightarrow> Pod \<Rightarrow> BuildPodInfo" where
  "CreateBuildPodInfo env pod = (podInfo env pod)\<lparr>bp_Pod := Some pod\<rparr>"

text \<open>The loop of \<^verbatim>\<open>loadBuilds\<close> over the pods (lines 454 to 463).\<close>

fun collectBuildPodInfos :: "Options \<Rightarrow> Env \<Rightarrow> BuildPodInfo list \<Rightarrow> Pod list \<Rightarrow> BuildPodInfo list" where
  "collectBuildPodInfos opts env buildInfos [] = buildInfos"
| "collectBuildPodInfos opts env buildInfos (pod # pods) =
     (let initContainers = InitContainers pod in
      if length initContainers > 0 then
        (let buildInfo = CreateBuildPodInfo env pod in
         if buildMatches env (BuildFilter opts) buildInfo
         then collectBuildPodInfos opts env (buildInfos @ [buildInfo]) pods
         else collectBuildPodInfos opts env buildInfos pods)
      else collectBuildPodInfos opts env buildInfos pods)"

definition loadBuilds :: "Options \<Rightarrow> Env \<Rightarrow> World \<Rightarrow> (Catalog \<times> error option) \<times> World" where
  "loadBuilds opts env w =
     (case buildPods env (now w) of
        Inl msg \<Rightarrow>
          ((emptyCatalog, Some (QueryFailure msg)), emit (WarnFailedToQueryPods (QueryFailure msg)) w)
      | Inr pods \<Rightarrow>
          (let buildInfos = SortBuildPodInfos (collectBuildPodInfos opts env [] pods) in
           if length buildInfos = 0 then ((emptyCatalog, Some NoKnativeBuilds), w)
           else ((indexBuilds (map BuildPod buildInfos) emptyCatalog, None), w)))"

text \<open>
  The loop of \<^verbatim>\<open>loadPipelines\<close> over the pipeline runs (lines 495 to 505): an
  error of \<^verbatim>\<open>CreatePipelineRunInfo\<close> is logged and returned at once; a nil
  descriptor is passed over.
\<close>

fun collectPipelineRunInfos ::
  "Env \<Rightarrow> PipelineRunInfo list \<Rightarrow> string list \<Rightarrow> World \<Rightarrow> (error + PipelineRunInfo list) \<times> World" where
  "collectPipelineRunInfos env buildInfos [] w = (Inr buildInfos, w)"
| "collectPipelineRunInfos env buildInfos (prName # prs) w =
     (case createPipelineRunInfo env (now w) prName of
        Inl msg \<Rightarrow>
          (Inl (QueryFailure msg), emit (WarnErrorCreatingPipelineRunInfo prName (QueryFailure msg)) w)
      | Inr pri \<Rightarrow>
          (case pri of
             Some info \<Rightarrow> collectPipelineRunInfos env (buildInfos @ [info]) prs w
           | None \<Rightarrow> collectPipelineRunInfos env buildInfos prs w))"

definition loadPipelines :: "Env \<Rightarrow> World \<Rightarrow> (Catalog \<times> error option) \<times> World" where
  "loadPipelines env w =
     (case pipelineRuns env (now w) of
        Inl msg \<Rightarrow>
          ((emptyCatalog, Some (QueryFailure msg)),
           emit (WarnFailedToQueryPipelineRuns (QueryFailure msg)) w)
      | Inr prList \<Rightarrow>
          (case collectPipelineRunInfos env [] prList w of
             (Inl err, w1) \<Rightarrow> ((emptyCatalog, Some err), w1)
           | (Inr collected, w1) \<Rightarrow>
               (let buildInfos = SortPipelineRunInfos collected in
                if length buildInfos = 0 then ((emptyCatalog, Some NoTektonPipelines), w1)
                else ((indexBuilds (map PipelineRun buildInfos) emptyCatalog, None), w1))))"

definition loadCatalog :: "bool \<Rightarrow> Options \<Rightarrow> Env \<Rightarrow> World \<Rightarrow> (Catalog \<times> error option) \<times> World" where
  "loadCatalog tektonEnabled opts env w =
     (if tektonEnabled then loadPipelines env w else loadBuilds opts env w)"

section \<open>Selecting the build\<close>

text \<open>
  Modelled from the spec: \<^verbatim>\<open>util.Retry\<close> (package util, not in the sources). The
  specification retries "at a fixed interval until either a match appears or
  waitTimeout elapses", then fails with a timeout error that includes the "elapsed
  duration" and the last failure. The attempt is a function of the world that returns
  what the Go closure leaves in the variables it captures. \<open>elapsed\<close> is the time
  slept so far; an interval of zero would never let the time elapse, and the loop gives
  up after the first failure.
\<close>

function RetryFrom ::
  "nat \<Rightarrow> nat \<Rightarrow> nat \<Rightarrow> (World \<Rightarrow> (error + 'a) \<times> World) \<Rightarrow> World \<Rightarrow> (error + 'a) \<times> World" where
  "RetryFrom interval maxElapsedTime elapsed f w =
     (case f w of
        (Inr v, w1) \<Rightarrow> (Inr v, w1)
      | (Inl err, w1) \<Rightarrow>
          (if maxElapsedTime \<le> elapsed \<or> interval = 0 then (Inl (Timeout elapsed err), w1)
           else RetryFrom interval maxElapsedTime (elapsed + interval) f (sleep interval w1)))"
  by pat_completeness auto
termination
  by (relation "measure (\<lambda>(interval, maxElapsedTime, elapsed, f, w). maxElapsedTime - elapsed)") auto

definition Retry ::
  "Env \<Rightarrow> nat \<Rightarrow> (World \<Rightarrow> (error + 'a) \<times> World) \<Rightarrow> World \<Rightarrow> (error + 'a) \<times> World" where
  "Retry env maxElapsedTime f w = RetryFrom (retryInterval env) maxElapsedTime 0 f w"

text \<open>
  Lines 269 to 276, and again lines 291 to 297: the exact index first, then the
  latest-per-pipeline index, which also sets the suffix.
\<close>

definition lookupBuild :: "Catalog \<Rightarrow> string \<Rightarrow> string \<Rightarrow> BaseBuildInfo option \<times> string" where
  "lookupBuild c name suffix =
     (case buildMap c name of
        Some build \<Rightarrow> (Some build, suffix)
      | None \<Rightarrow>
          (case pipelineMap c name of
             Some build \<Rightarrow> (Some build, '' #'' @ GetBuild build)
           | None \<Rightarrow> (None, suffix)))"

text \<open>
  The closure of lines 281 to 303: reload the catalog, look the name up, fail when it
  is in neither index.
\<close>

definition reloadAndLookup ::
  "bool \<Rightarrow> Options \<Rightarrow> Env \<Rightarrow> string \<Rightarrow> string \<Rightarrow> World \<Rightarrow> (error + (BaseBuildInfo \<times> string)) \<times> World" where
  "reloadAndLookup tektonEnabled opts env name suffix w =
     (case loadCatalog tektonEnabled opts env w of
        ((c, Some err), w1) \<Rightarrow> (Inl err, w1)
      | ((c, None), w1) \<Rightarrow>
          (case lookupBuild c name suffix of
             (Some build, suffix1) \<Rightarrow> (Inr (build, suffix1), w1)
           | (None, suffix1) \<Rightarrow>
               (Inl (NoPipelineExistsYet name), emit (InfoNoBuildFoundIn (names c)) w1)))"

text \<open>
  Lines 268 to 311, from the name on: \<open>c\<close> is the catalog loaded so far (empty when
  the name came from the arguments), \<open>pickedPipeline\<close> says that the name was picked
  interactively.
\<close>

definition resolveName ::
  "bool \<Rightarrow> Options \<Rightarrow> Env \<Rightarrow> bool \<Rightarrow> Catalog \<Rightarrow> string \<Rightarrow> World
    \<Rightarrow> (error + (string \<times> string \<times> BaseBuildInfo)) \<times> World" where
  "resolveName tektonEnabled opts env pickedPipeline c name w =
     (case lookupBuild c name [] of
        (Some build, suffix) \<Rightarrow> (Inr (name, suffix, build), w)
      | (None, suffix) \<Rightarrow>
          (if \<not> pickedPipeline \<and> Wait opts then
             (case Retry env (WaitForPipelineDuration opts)
                     (reloadAndLookup tektonEnabled opts env name suffix)
                     (emit (InfoWaitingForPipeline name) w) of
                (Inl err, w1) \<Rightarrow> (Inl err, w1)
              | (Inr (build, suffix1), w1) \<Rightarrow> (Inr (name, suffix1, build), w1))
           else (Inl (NoPipelineFound name (names c)), w)))"

text \<open>
  Lines 238 to 311. The check of line 265 comes after an assignment of one name to the
  arguments and cannot fail.
\<close>

definition selectBuild ::
  "bool \<Rightarrow> Options \<Rightarrow> Env \<Rightarrow> World \<Rightarrow> (error + (string \<times> string \<times> BaseBuildInfo)) \<times> World" where
  "selectBuild tektonEnabled opts env w =
     (case Args opts of
        [] \<Rightarrow>
          (if BatchMode opts then (Inl (MissingArgument ''pipeline''), w)
           else
             (case loadCatalog tektonEnabled opts env w of
                ((c, Some err), w1) \<Rightarrow> (Inl err, w1)
              | ((c, None), w1) \<Rightarrow>
                  (case pickName env (names c) (defaultName c) of
                     Inl msg \<Rightarrow> (Inl (QueryFailure msg), w1)
                   | Inr name \<Rightarrow> resolveName tektonEnabled opts env True c name w1)))
      | name # _ \<Rightarrow> resolveName tektonEnabled opts env False emptyCatalog name w)"

section \<open>Walking the init containers\<close>

text \<open>
  Go's \<^verbatim>\<open>xs[k]\<close>: a panic when \<open>k\<close> is out of range.
\<close>

definition index :: "'a list \<Rightarrow> int \<Rightarrow> error + 'a" where
  "index xs k =
     (if 0 \<le> k \<and> k < int (length xs) then Inr (xs ! nat k)
      else Inl (Panic ''index out of range''))"

text \<open>
  Modelled from the spec: \<^verbatim>\<open>kube.HasInitContainerStarted\<close> (package kube, not in the
  sources). The specification's pod snapshot gives every init container status a
  \<open>started\<close> flag, and the waiter returns when "the target container's status already
  shows started = true"; a container with no status yet has not started.
\<close>

definition HasInitContainerStarted :: "Pod \<Rightarrow> nat \<Rightarrow> bool" where
  "HasInitContainerStarted pod idx =
     (idx < length (InitContainerStatuses pod) \<and> cs_Started (InitContainerStatuses pod ! idx))"

text \<open>The loop of \<^verbatim>\<open>waitForInitContainerToStart\<close> (lines 419 to 429).\<close>

partial_function (option) pollUntilStarted ::
  "Env \<Rightarrow> string \<Rightarrow> nat \<Rightarrow> World \<Rightarrow> ((error + Pod) \<times> World) option" where
  "pollUntilStarted env name idx w =
     (let w1 = emit (GetPod name) (sleep 1 w) in
      case getPod env (now w1) name of
        Inl msg \<Rightarrow> Some (Inl (FailedToLoadPod name (QueryFailure msg)), w1)
      | Inr p \<Rightarrow>
          if HasInitContainerStarted p idx then Some (Inr p, w1)
          else pollUntilStarted env name idx w1)"

declare pollUntilStarted.simps [code]

definition waitForInitContainerToStart ::
  "Env \<Rightarrow> Pod \<Rightarrow> nat \<Rightarrow> World \<Rightarrow> ((error + Pod) \<times> World) option" where
  "waitForInitContainerToStart env pod idx w0 =
     (let w = emit (CallWaitForInitContainerToStart (pod_Name pod) idx) w0 in
      if Phase pod = PodFailed then Some (Inr pod, emit (WarnPodHasFailed (pod_Name pod)) w)
      else if HasInitContainerStarted pod idx then Some (Inr pod, w)
      else
        (let containerName =
               (if idx < length (InitContainers pod) then c_Name (InitContainers pod ! idx) else [])
         in pollUntilStarted env (pod_Name pod) idx
              (emit (InfoWaitingForInitContainer (pod_Name pod) containerName) w)))"

text \<open>
  The failure check of lines 346 to 355 and 383 to 392, on the pod just read, before
  the wait for container \<open>i\<close>.
\<close>

definition failureCheck :: "nat \<Rightarrow> Pod \<Rightarrow> World \<Rightarrow> error option \<times> World" where
  "failureCheck i pod w =
     (if i > 0 then
        (let icStatuses = InitContainerStatuses pod in
         if i < length icStatuses then
           (case index icStatuses (int i - 1) of
              Inl err \<Rightarrow> (Some err, w)
            | Inr lastContainer \<Rightarrow>
                (case cs_Terminated lastContainer of
                   Some terminated \<Rightarrow>
                     if ExitCode terminated \<noteq> 0
                     then (None, emit (WarnContainerFailed (cs_Name lastContainer)
                                         (ExitCode terminated) (Message terminated)) w)
                     else (None, w)
                 | None \<Rightarrow> (None, w)))
         else (None, w))
      else (None, w))"

definition TailLogs :: "Env \<Rightarrow> string \<Rightarrow> string \<Rightarrow> World \<Rightarrow> error option \<times> World" where
  "TailLogs env podName containerName w =
     (case tailLogs env (now w) podName containerName of
        (duration, res) \<Rightarrow>
          (map_option QueryFailure res,
           w\<lparr>now := now w + duration, trace := trace w @ [CallTailLogs podName containerName]\<rparr>))"

definition getPodLog :: "Env \<Rightarrow> Pod \<Rightarrow> Container \<Rightarrow> World \<Rightarrow> error option \<times> World" where
  "getPodLog env pod container w =
     TailLogs env (pod_Name pod) (c_Name container)
       (emit (InfoGettingPodLog (pod_Name pod) (c_Name container)) w)"

definition getStageLog ::
  "Env \<Rightarrow> string \<Rightarrow> string list \<Rightarrow> Pod \<Rightarrow> Container \<Rightarrow> World \<Rightarrow> error option \<times> World" where
  "getStageLog env build stageName pod container w =
     TailLogs env (pod_Name pod) (c_Name container)
       (emit (InfoGettingStageLog build stageName (c_Name container)) w)"

text \<open>
  The loop over the init containers, lines 341 to 364 (with \<open>getLog\<close> the call of
  \<^verbatim>\<open>getStageLog\<close>) and lines 378 to 401 (with \<open>getLog\<close> the call of
  \<^verbatim>\<open>getPodLog\<close>): \<open>i\<close> is the index of the first container of the list.
  \<open>None\<close>: the wait for a container never returns.
\<close>

fun visitInitContainers ::
  "Env \<Rightarrow> (Pod \<Rightarrow> Container \<Rightarrow> World \<Rightarrow> error option \<times> World) \<Rightarrow> string \<Rightarrow> nat
    \<Rightarrow> Container list \<Rightarrow> World \<Rightarrow> (error option \<times> World) option" where
  "visitInitContainers env getLog podName i [] w = Some (None, w)"
| "visitInitContainers env getLog podName i (ic # ics) w =
     (let w1 = emit (GetPod podName) w in
      case getPod env (now w) podName of
        Inl msg \<Rightarrow> Some (Some (FailedToFindPod (QueryFailure msg)), w1)
      | Inr pod \<Rightarrow>
          (case failureCheck i pod w1 of
             (Some err, w2) \<Rightarrow> Some (Some err, w2)
           | (None, w2) \<Rightarrow>
               (case waitForInitContainerToStart env pod i w2 of
                  None \<Rightarrow> None
                | Some (Inl err, w3) \<Rightarrow> Some (Some err, w3)
                | Some (Inr pod1, w3) \<Rightarrow>
                    (case getLog pod1 ic w3 of
                       (Some err, w4) \<Rightarrow> Some (Some err, w4)
                     | (None, w4) \<Rightarrow> visitInitContainers env getLog podName (Suc i) ics w4))))"

text \<open>
  The closure of lines 319 to 330, and the stage's pod after lines 317 to 336.
\<close>

definition setPodsAttempt :: "Env \<Rightarrow> PipelineRunInfo \<Rightarrow> StageInfo \<Rightarrow> World \<Rightarrow> (error + Pod) \<times> World" where
  "setPodsAttempt env pr stage w =
     (case stagePod env (now w) (pr_PipelineRun pr) (st_Name stage) of
        Inl msg \<Rightarrow> (Inl (QueryFailure msg), w)
      | Inr None \<Rightarrow>
          (Inl (NoPodForStageYet (st_Name stage) (pr_PipelineRun pr)),
           emit (InfoNoPodFoundYet (st_Name stage) (pr_PipelineRun pr)) w)
      | Inr (Some pod) \<Rightarrow> (Inr pod, w))"

definition resolveStagePod ::
  "Options \<Rightarrow> Env \<Rightarrow> PipelineRunInfo \<Rightarrow> StageInfo \<Rightarrow> World \<Rightarrow> (error + Pod) \<times> World" where
  "resolveStagePod opts env pr stage w =
     (case st_Pod stage of
        Some pod \<Rightarrow> (Inr pod, w)
      | None \<Rightarrow> Retry env (WaitForPipelineDuration opts) (setPodsAttempt env pr stage) w)"

text \<open>The loop over the stages, lines 316 to 365.\<close>

fun walkStages ::
  "Options \<Rightarrow> Env \<Rightarrow> PipelineRunInfo \<Rightarrow> string \<Rightarrow> string \<Rightarrow> StageInfo list \<Rightarrow> World
    \<Rightarrow> (error option \<times> World) option" where
  "walkStages opts env pr name suffix [] w = Some (None, w)"
| "walkStages opts env pr name suffix (stage # stages) w =
     (case resolveStagePod opts env pr stage w of
        (Inl err, w1) \<Rightarrow> Some (Some err, w1)
      | (Inr pod, w1) \<Rightarrow>
          (let initContainers = InitContainers pod in
           if length initContainers \<le> 0 then Some (Some (NoInitContainers (pod_Name pod) name), w1)
           else
             (case visitInitContainers env
                     (getStageLog env (name @ suffix) (GetStageNameIncludingParents stage))
                     (pod_Name pod) 0 initContainers w1 of
                None \<Rightarrow> None
              | Some (Some err, w2) \<Rightarrow> Some (Some err, w2)
              | Some (None, w2) \<Rightarrow> walkStages opts env pr name suffix stages w2)))"

text \<open>The pipeline-run branch, lines 314 to 365.\<close>

definition pipelineRunLog ::
  "Options \<Rightarrow> Env \<Rightarrow> string \<Rightarrow> string \<Rightarrow> PipelineRunInfo \<Rightarrow> World \<Rightarrow> (error option \<times> World) option" where
  "pipelineRunLog opts env name suffix pr w =
     walkStages opts env pr name suffix (GetOrderedTaskStages pr)
       (emit (InfoBuildLogsFor (name @ suffix)) w)"

text \<open>The legacy branch, lines 367 to 401.\<close>

definition buildPodLog ::
  "Env \<Rightarrow> string \<Rightarrow> string \<Rightarrow> BuildPodInfo \<Rightarrow> World \<Rightarrow> (error option \<times> World) option" where
  "buildPodLog env name suffix b w =
     (case bp_Pod b of
        None \<Rightarrow> Some (Some (NoPodFound name), w)
      | Some pod \<Rightarrow>
          (let initContainers = InitContainers pod in
           if length initContainers \<le> 0 then Some (Some (NoInitContainers (pod_Name pod) name), w)
           else visitInitContainers env (getPodLog env) (pod_Name pod) 0 initContainers
                  (emit (InfoBuildLogsFor (name @ suffix)) w)))"

text \<open>
  Lines 223 to 236: with \<^verbatim>\<open>--current\<close> the repository and owner of the filter are
  those of the current directory.
\<close>

definition useCurrentFolder :: "Options \<Rightarrow> Env \<Rightarrow> error + Options" where
  "useCurrentFolder opts env =
     (if CurrentFolder opts then
        (case gitInfo env of
           Inl msg \<Rightarrow> Inl (QueryFailure msg)
         | Inr (repository, organisation) \<Rightarrow>
             Inr (opts\<lparr>BuildFilter :=
                        (BuildFilter opts)\<lparr>f_Repository := repository, f_Owner := organisation\<rparr>\<rparr>))
      else Inr opts)"

definition getProwBuildLog :: "Options \<Rightarrow> Env \<Rightarrow> bool \<Rightarrow> World \<Rightarrow> (error option \<times> World) option" where
  "getProwBuildLog opts0 env tektonEnabled w =
     (case useCurrentFolder opts0 env of
        Inl err \<Rightarrow> Some (Some err, w)
      | Inr opts \<Rightarrow>
          (case selectBuild tektonEnabled opts env w of
             (Inl err, w1) \<Rightarrow> Some (Some err, w1)
           | (Inr (name, suffix, build), w1) \<Rightarrow>
               (if tektonEnabled then
                  (case build of
                     PipelineRun pr \<Rightarrow> pipelineRunLog opts env name suffix pr w1
                   | BuildPod b \<Rightarrow> Some (Some (Panic ''interface conversion''), w1))
                else
                  (case build of
                     BuildPod b \<Rightarrow> buildPodLog env name suffix b w1
                   | PipelineRun pr \<Rightarrow> Some (Some (Panic ''interface conversion''), w1)))))"

section \<open>Reading the trace\<close>

text \<open>
  What a trace says about the units visited: the entry into the wait for container
  \<open>i\<close> of a pod, the header line of a stage's container, and the log tail of a
  container. \<open>stageUnits\<close> is what one stage contributes when each of its containers,
  from index \<open>i\<close> on, is waited for and then streamed; \<open>pipelineUnits\<close> is the
  concatenation over the stages, each with the pod it ran in. \<open>steps w w' us\<close>: the
  world \<open>w'\<close> extends the trace of \<open>w\<close> by events that read as \<open>us\<close>.
\<close>

datatype UnitStep = Await nat | Header "string list" string | Stream string

fun unitStep :: "Event \<Rightarrow> UnitStep option" where
  "unitStep (CallWaitForInitContainerToStart podName i) = Some (Await i)"
| "unitStep (InfoGettingStageLog build stageName containerName) = Some (Header stageName containerName)"
| "unitStep (CallTailLogs podName containerName) = Some (Stream containerName)"
| "unitStep _ = None"

definition unitSteps :: "Event list \<Rightarrow> UnitStep list" where
  "unitSteps evs = List.map_filter unitStep evs"

definition stageUnits :: "string list \<Rightarrow> nat \<Rightarrow> Container list \<Rightarrow> UnitStep list" where
  "stageUnits stageName i containers =
     concat (map (\<lambda>(j, ic). [Await j, Header stageName (c_Name ic), Stream (c_Name ic)])
               (enumerate i containers))"

definition steps :: "World \<Rightarrow> World \<Rightarrow> UnitStep list \<Rightarrow> bool" where
  "steps w w' us = (\<exists>evs. trace w' = trace w @ evs \<and> unitSteps evs = us)"

fun isFailureWarning :: "Event \<Rightarrow> bool" where
  "isFailureWarning (WarnContainerFailed name exitCode message) = True"
| "isFailureWarning _ = False"

definition pipelineUnits :: "StageInfo list \<Rightarrow> Pod list \<Rightarrow> UnitStep list" where
  "pipelineUnits stages pods =
     concat (map (\<lambda>(stage, pod). stageUnits (GetStageNameIncludingParents stage) 0 (InitContainers pod))
               (zip stages pods))"

text \<open>
  The world at a time, with nothing logged; what a reload of the catalog at that time
  finds for a name in the exact index or the latest-per-pipeline index, if the load
  succeeds; and the durations of the sleeps of a trace.
\<close>

definition worldAt :: "nat \<Rightarrow> World" where
  "worldAt t = \<lparr>now = t, trace = []\<rparr>"

definition matchAt :: "bool \<Rightarrow> Options \<Rightarrow> Env \<Rightarrow> string \<Rightarrow> nat \<Rightarrow> (BaseBuildInfo \<times> string) option" where
  "matchAt tektonEnabled opts env name t =
     (case fst (loadCatalog tektonEnabled opts env (worldAt t)) of
        (c, Some err) \<Rightarrow> None
      | (c, None) \<Rightarrow>
          (case lookupBuild c name [] of
             (Some build, suffix) \<Rightarrow> Some (build, suffix)
           | (None, suffix) \<Rightarrow> None))"

fun sleepOf :: "Event \<Rightarrow> nat option" where
  "sleepOf (Sleep d) = Some d"
| "sleepOf _ = None"

definition sleeps :: "Event list \<Rightarrow> nat list" where
  "sleeps evs = List.map_filter sleepOf evs"

section \<open>Example clusters\<close>

text \<open>Concrete pods, descriptors and clusters on which the theorems below are run.\<close>

definition examplePod :: "string \<Rightarrow> string list \<Rightarrow> ContainerStatus list \<Rightarrow> Pod" where
  "examplePod name containers statuses =
     \<lparr>pod_Name = name, InitContainers = map (\<lambda>n. \<lparr>c_Name = n\<rparr>) containers,
      Phase = PodRunning, InitContainerStatuses = statuses\<rparr>"

definition startedStatus :: "string \<Rightarrow> ContainerStatus" where
  "startedStatus name = \<lparr>cs_Name = name, cs_Started = True, cs_Terminated = None\<rparr>"

definition startWorld :: World where
  "startWorld = \<lparr>now = 0, trace = []\<rparr>"

definition quietEnv :: Env where
  "quietEnv =
     \<lparr>buildPods = (\<lambda>t. Inr []),
      podInfo = (\<lambda>pod. \<lparr>bp_Pipeline = [], bp_Build = [], bp_BuildNumber = 0, bp_Branch = [], bp_Pod = None\<rparr>),
      pipelineRuns = (\<lambda>t. Inr []),
      createPipelineRunInfo = (\<lambda>t prName. Inr None),
      getPod = (\<lambda>t name. Inl ''not found''),
      stagePod = (\<lambda>t pipelineRun stage. Inr None),
      tailLogs = (\<lambda>t podName containerName. (1, None)),
      pickName = (\<lambda>choices dflt. Inr dflt),
      retryInterval = 2,
      buildMatches = (\<lambda>f b. True),
      gitInfo = Inr (''repo'', ''org'')\<rparr>"

definition exampleOptions :: Options where
  "exampleOptions =
     \<lparr>Args = [], BatchMode = False, Wait = False, WaitForPipelineDuration = 5,
      CurrentFolder = False,
      BuildFilter = \<lparr>f_Owner = [], f_Repository = [], f_Branch = [], f_Build = [],
                     f_Filter = [], f_Pending = False\<rparr>\<rparr>"

text \<open>
  A legacy cluster: two builds of org/a/master, one of org/b/master, and a pod with no
  init container.
\<close>

definition legacyInfo :: "Pod \<Rightarrow> BuildPodInfo" where
  "legacyInfo pod =
     (if pod_Name pod = ''a-1'' then
        \<lparr>bp_Pipeline = ''org/a/master'', bp_Build = ''1'', bp_BuildNumber = 1,
         bp_Branch = ''master'', bp_Pod = None\<rparr>
      else if pod_Name pod = ''a-2'' then
        \<lparr>bp_Pipeline = ''org/a/master'', bp_Build = ''2'', bp_BuildNumber = 2,
         bp_Branch = ''master'', bp_Pod = None\<rparr>
      else if pod_Name pod = ''b-3'' then
        \<lparr>bp_Pipeline = ''org/b/master'', bp_Build = ''3'', bp_BuildNumber = 3,
         bp_Branch = ''master'', bp_Pod = None\<rparr>
      else
        \<lparr>bp_Pipeline = ''org/c/PR-7'', bp_Build = ''4'', bp_BuildNumber = 4,
         bp_Branch = ''PR-7'', bp_Pod = None\<rparr>)"

definition legacyPods :: "Pod list" where
  "legacyPods =
     [examplePod ''a-1'' [''git'', ''build''] [], examplePod ''c-4'' [] [],
      examplePod ''b-3'' [''git''] [], examplePod ''a-2'' [''git'', ''build''] []]"

definition legacyEnv :: Env where
  "legacyEnv = quietEnv\<lparr>buildPods := (\<lambda>t. Inr legacyPods), podInfo := legacyInfo\<rparr>"

text \<open>
  A pipeline run with the stages Build (containers a and b) and Test (container c), and
  a cluster in which the descriptor of the second of three runs cannot be made.
\<close>

definition buildStagePod :: Pod where
  "buildStagePod = examplePod ''build-pod'' [''a'', ''b''] [startedStatus ''a'', startedStatus ''b'']"

definition testStagePod :: Pod where
  "testStagePod = examplePod ''test-pod'' [''c''] [startedStatus ''c'']"

definition exampleRun :: PipelineRunInfo where
  "exampleRun =
     \<lparr>pr_Pipeline = ''org/app/master'', pr_Build = ''1'', pr_BuildNumber = 1, pr_Branch = ''master'',
      pr_PipelineRun = ''run-1'',
      pr_Stages =
        [\<lparr>st_Name = ''Build'', st_Parents = [], st_Pod = Some buildStagePod\<rparr>,
         \<lparr>st_Name = ''Test'', st_Parents = [], st_Pod = Some testStagePod\<rparr>]\<rparr>"

definition failingTektonEnv :: Env where
  "failingTektonEnv =
     quietEnv\<lparr>pipelineRuns := (\<lambda>t. Inr [''run-1'', ''run-2'', ''run-3'']),
              createPipelineRunInfo :=
                (\<lambda>t prName. if prName = ''run-2'' then Inl ''tasks not found''
                              else Inr (Some (exampleRun\<lparr>pr_PipelineRun := prName\<rparr>)))\<rparr>"

text \<open>
  Clusters for the walker: one that serves the pods of the example run; a pod whose
  container starts at time 3, and one whose container never starts; a pod whose first
  container failed, with a status for every container, and a failed pod with a status
  for the first container only; a stage whose pod has no init container.
\<close>

definition tektonEnv :: Env where
  "tektonEnv =
     quietEnv\<lparr>pipelineRuns := (\<lambda>t. Inr [''run-1'']),
              createPipelineRunInfo := (\<lambda>t prName. Inr (Some exampleRun)),
              getPod :=
       (\<lambda>t name. if name = ''build-pod'' then Inr buildStagePod
                   else if name = ''test-pod'' then Inr testStagePod
                   else Inl ''not found'')\<rparr>"

definition slowPod :: "nat \<Rightarrow> Pod" where
  "slowPod t =
     examplePod ''slow-pod'' [''a'']
       [\<lparr>cs_Name = ''a'', cs_Started = (3 \<le> t), cs_Terminated = None\<rparr>]"

definition slowEnv :: Env where
  "slowEnv = quietEnv\<lparr>getPod := (\<lambda>t name. Inr (slowPod t))\<rparr>"

definition stuckEnv :: Env where
  "stuckEnv = quietEnv\<lparr>getPod := (\<lambda>t name. Inr (slowPod 0))\<rparr>"

definition failedStatus :: "string \<Rightarrow> int \<Rightarrow> string \<Rightarrow> ContainerStatus" where
  "failedStatus name exitCode message =
     \<lparr>cs_Name = name, cs_Started = True,
      cs_Terminated = Some \<lparr>ExitCode = exitCode, Message = message\<rparr>\<rparr>"

definition failedFirstPod :: Pod where
  "failedFirstPod =
     examplePod ''job'' [''u0'', ''u1'', ''u2'']
       [failedStatus ''u0'' 1 ''boom'', startedStatus ''u1'', startedStatus ''u2'']"

definition failedFirstEnv :: Env where
  "failedFirstEnv = quietEnv\<lparr>getPod := (\<lambda>t name. Inr failedFirstPod)\<rparr>"

definition shortStatusPod :: Pod where
  "shortStatusPod =
     (examplePod ''job'' [''u0'', ''u1''] [failedStatus ''u0'' 1 ''boom''])\<lparr>Phase := PodFailed\<rparr>"

definition shortStatusEnv :: Env where
  "shortStatusEnv = quietEnv\<lparr>getPod := (\<lambda>t name. Inr shortStatusPod)\<rparr>"

definition emptyStagePod :: Pod where
  "emptyStagePod = examplePod ''empty-pod'' [] []"

definition emptyStage :: StageInfo where
  "emptyStage = \<lparr>st_Name = ''Lint'', st_Parents = [], st_Pod = Some emptyStagePod\<rparr>"

text \<open>
  Options that name a pipeline and ask to wait, and a cluster whose build pods appear
  at time 4.
\<close>

definition waitOptions :: Options where
  "waitOptions = exampleOptions\<lparr>Args := [''org/b/master''], BatchMode := True, Wait := True\<rparr>"

definition gainingEnv :: Env where
  "gainingEnv = legacyEnv\<lparr>buildPods := (\<lambda>t. if t < 4 then Inr [] else Inr legacyPods)\<rparr>"

section \<open>The catalog loaders: what the indices hold\<close>

lemmas example_defs =
  examplePod_def startedStatus_def startWorld_def quietEnv_def exampleOptions_def
  legacyInfo_def legacyPods_def legacyEnv_def
  buildStagePod_def testStagePod_def exampleRun_def failingTektonEnv_def
  tektonEnv_def slowPod_def slowEnv_def stuckEnv_def failedStatus_def failedFirstPod_def
  failedFirstEnv_def shortStatusPod_def shortStatusEnv_def emptyStagePod_def emptyStage_def

lemmas loader_defs =
  loadBuilds_def loadPipelines_def SortBuildPodInfos_def SortPipelineRunInfos_def
  CreateBuildPodInfo_def emptyCatalog_def displayName_def Let_def emit_def

lemma names_indexBuilds: "names (indexBuilds bs c) = names c @ map displayName bs"
  by (induction bs arbitrary: c) (simp_all add: Let_def)

text \<open>
  Each index holds, for a key, the last descriptor of the sorted sequence with that key:
  a later descriptor overwrites an earlier one. The default name is the name of the
  last descriptor on the master branch, for the same reason.
\<close>

lemma buildMap_indexBuilds:
  "buildMap (indexBuilds bs c) n =
     (if filter (\<lambda>b. displayName b = n) bs = [] then buildMap c n
      else Some (last (filter (\<lambda>b. displayName b = n) bs)))"
  by (induction bs arbitrary: c) (auto simp add: Let_def)

lemma pipelineMap_indexBuilds:
  "pipelineMap (indexBuilds bs c) p =
     (if filter (\<lambda>b. GetPipeline b = p) bs = [] then pipelineMap c p
      else Some (last (filter (\<lambda>b. GetPipeline b = p) bs)))"
  by (induction bs arbitrary: c) (auto simp add: Let_def)

lemma defaultName_indexBuilds:
  "defaultName (indexBuilds bs c) =
     (if filter (\<lambda>b. GetBranch b = ''master'') bs = [] then defaultName c
      else displayName (last (filter (\<lambda>b. GetBranch b = ''master'') bs)))"
  by (induction bs arbitrary: c) (auto simp add: Let_def)

lemma indexBuilds_buildMap_mem:
  "buildMap (indexBuilds bs c) n = Some b \<Longrightarrow> b \<in> set bs \<or> buildMap c n = Some b"
  using last_in_set [of "filter (\<lambda>b. displayName b = n) bs"]
  by (auto simp add: buildMap_indexBuilds split: if_splits)

lemma indexBuilds_pipelineMap_mem:
  "pipelineMap (indexBuilds bs c) n = Some b \<Longrightarrow> b \<in> set bs \<or> pipelineMap c n = Some b"
  using last_in_set [of "filter (\<lambda>b. GetPipeline b = n) bs"]
  by (auto simp add: pipelineMap_indexBuilds split: if_splits)

lemma names_in_buildMap:
  "set (names c) \<subseteq> dom (buildMap c) \<Longrightarrow>
   set (names (indexBuilds bs c)) \<subseteq> dom (buildMap (indexBuilds bs c))"
  by (auto simp add: names_indexBuilds buildMap_indexBuilds filter_empty_conv)

lemma collectBuildPodInfos_set:
  "set (collectBuildPodInfos opts env acc pods) =
     set acc \<union> {CreateBuildPodInfo env pod | pod. pod \<in> set pods \<and> length (InitContainers pod) > 0
                    \<and> buildMatches env (BuildFilter opts) (CreateBuildPodInfo env pod)}"
  by (induction pods arbitrary: acc) (auto simp add: Let_def)

lemma collectPipelineRunInfos_abort:
  assumes "\<forall>n \<in> set pre. \<exists>r. createPipelineRunInfo env (now w) n = Inr r"
    and "createPipelineRunInfo env (now w) x = Inl msg"
  shows "collectPipelineRunInfos env acc (pre @ x # post) w =
           (Inl (QueryFailure msg), emit (WarnErrorCreatingPipelineRunInfo x (QueryFailure msg)) w)"
  using assms by (induction pre arbitrary: acc) (auto split: option.splits)

text \<open>
  C1. The claim: the latest-per-pipeline index maps a pipeline name to the descriptor
  with the greatest build number among those loaded for it, the first under the
  newest-first order. In the legacy example the catalog is sorted newest first, build 2
  of org/a/master is loaded (the exact index has it), and the latest-per-pipeline index
  holds build 1 for org/a/master: the entry of line 473 is overwritten by every later
  descriptor of the pipeline.
\<close>

theorem loadBuilds_pipelineMap_holds_oldest_build:
  "(case loadBuilds exampleOptions legacyEnv startWorld of
      ((c, err), w) \<Rightarrow>
        err = None \<and>
        names c = [''org/b/master #3'', ''org/a/master #2'', ''org/a/master #1''] \<and>
        map_option GetPipeline (buildMap c ''org/a/master #2'') = Some ''org/a/master'' \<and>
        map_option GetBuildNumber (buildMap c ''org/a/master #2'') = Some 2 \<and>
        map_option GetBuildNumber (pipelineMap c ''org/a/master'') = Some 1)"
  by (simp add: example_defs loader_defs)

text \<open>
  C2. The claim: the default name is the display name of the first descriptor in sort
  order whose branch is master. In the legacy example the first descriptor in sort
  order, org/b/master #3, is on master, and the default name is that of the last
  descriptor on master, org/a/master #1: line 476 assigns at every master descriptor
  and the loop does not stop at the first.
\<close>

theorem loadBuilds_defaultName_is_last_master:
  "(case loadBuilds exampleOptions legacyEnv startWorld of
      ((c, err), w) \<Rightarrow>
        err = None \<and>
        names c = [''org/b/master #3'', ''org/a/master #2'', ''org/a/master #1''] \<and>
        map_option GetBranch (buildMap c ''org/b/master #3'') = Some ''master'' \<and>
        defaultName c = ''org/a/master #1'')"
  by (simp add: example_defs loader_defs)

text \<open>
  C3, as claimed: a failure while making the descriptor of one item is logged, the
  item is dropped and the load goes on, failing only when every item fails. It does
  not hold: in the example the descriptor of run-1 is made, that of run-2 fails, and
  the load fails.
\<close>

theorem loadPipelines_fails_though_an_item_succeeds:
  "createPipelineRunInfo failingTektonEnv 0 ''run-1'' = Inr (Some exampleRun) \<and>
   createPipelineRunInfo failingTektonEnv 0 ''run-2'' = Inl ''tasks not found'' \<and>
   fst (loadPipelines failingTektonEnv startWorld) =
     (emptyCatalog, Some (QueryFailure ''tasks not found''))"
  by (simp add: example_defs loader_defs)

text \<open>
  C3, amended: when the descriptor of an item cannot be made (and those of the items
  before it could), one warning naming the item is logged and the load fails at once
  with that error and an empty catalog; the items after it are not converted.
\<close>

theorem loadPipelines_aborts_on_first_failure:
  assumes "pipelineRuns env (now w) = Inr (pre @ prName # post)"
    and "\<forall>n \<in> set pre. \<exists>r. createPipelineRunInfo env (now w) n = Inr r"
    and "createPipelineRunInfo env (now w) prName = Inl msg"
  shows "loadPipelines env w =
           ((emptyCatalog, Some (QueryFailure msg)),
            emit (WarnErrorCreatingPipelineRunInfo prName (QueryFailure msg)) w)"
  using assms by (simp add: loadPipelines_def collectPipelineRunInfos_abort)

theorem loadPipelines_aborts_on_first_failure_witness:
  "pipelineRuns failingTektonEnv (now startWorld) = Inr ([''run-1''] @ ''run-2'' # [''run-3'']) \<and>
   loadPipelines failingTektonEnv startWorld =
     ((emptyCatalog, Some (QueryFailure ''tasks not found'')),
      emit (WarnErrorCreatingPipelineRunInfo ''run-2'' (QueryFailure ''tasks not found'')) startWorld)"
proof -
  have runs: "pipelineRuns failingTektonEnv (now startWorld) = Inr ([''run-1''] @ ''run-2'' # [''run-3''])"
    by (simp add: example_defs)
  have ok: "\<forall>n \<in> set [''run-1'']. \<exists>r. createPipelineRunInfo failingTektonEnv (now startWorld) n = Inr r"
    by (simp add: example_defs)
  have bad: "createPipelineRunInfo failingTektonEnv (now startWorld) ''run-2'' = Inl ''tasks not found''"
    by (simp add: example_defs)
  show ?thesis
    using runs loadPipelines_aborts_on_first_failure [OF runs ok bad] by simp
qed

text \<open>
  C10. Every descriptor that \<^verbatim>\<open>loadBuilds\<close> puts into the exact index or the
  latest-per-pipeline index is made from a pod of the cluster with at least one init
  container, every name of the list is a key of the exact index, and a load that
  succeeds logs nothing (the pods without init containers are passed over silently). Such a descriptor
  keeps its pod, so the legacy branch passes both of its guards (no pod, no init
  containers) and goes on to the loop over the init containers.
\<close>

theorem loadBuilds_only_pods_with_init_containers:
  assumes load: "loadBuilds opts env w = ((c, None), w1)"
    and entry: "buildMap c n = Some build \<or> pipelineMap c n = Some build"
  shows "w1 = w \<and> set (names c) \<subseteq> dom (buildMap c) \<and>
         (\<exists>pods pod.
            buildPods env (now w) = Inr pods \<and> pod \<in> set pods \<and>
            length (InitContainers pod) > 0 \<and>
            build = BuildPod (CreateBuildPodInfo env pod) \<and>
            bp_Pod (CreateBuildPodInfo env pod) = Some pod \<and>
            (\<forall>name suffix w2.
               buildPodLog env name suffix (CreateBuildPodInfo env pod) w2 =
                 visitInitContainers env (getPodLog env) (pod_Name pod) 0 (InitContainers pod)
                   (emit (InfoBuildLogsFor (name @ suffix)) w2)))"
proof -
  from load obtain pods where pods: "buildPods env (now w) = Inr pods"
    by (cases "buildPods env (now w)") (simp_all add: loadBuilds_def)
  define infos where "infos = SortBuildPodInfos (collectBuildPodInfos opts env [] pods)"
  from load pods have c: "c = indexBuilds (map BuildPod infos) emptyCatalog" and silent: "w1 = w"
    by (simp_all add: loadBuilds_def infos_def Let_def split: if_splits)
  have names: "set (names c) \<subseteq> dom (buildMap c)"
    unfolding c by (rule names_in_buildMap) (simp add: emptyCatalog_def)
  from entry have "build \<in> set (map BuildPod infos)"
    unfolding c using indexBuilds_buildMap_mem indexBuilds_pipelineMap_mem
    by (fastforce simp add: emptyCatalog_def)
  then obtain b where b: "build = BuildPod b" "b \<in> set infos" by auto
  from b(2) have "b \<in> set (collectBuildPodInfos opts env [] pods)"
    by (simp add: infos_def SortBuildPodInfos_def)
  then obtain pod where pod:
    "pod \<in> set pods" "length (InitContainers pod) > 0" "b = CreateBuildPodInfo env pod"
    by (auto simp add: collectBuildPodInfos_set)
  have keeps: "bp_Pod (CreateBuildPodInfo env pod) = Some pod"
    by (simp add: CreateBuildPodInfo_def)
  have walk: "\<forall>name suffix w2.
               buildPodLog env name suffix (CreateBuildPodInfo env pod) w2 =
                 visitInitContainers env (getPodLog env) (pod_Name pod) 0 (InitContainers pod)
                   (emit (InfoBuildLogsFor (name @ suffix)) w2)"
    using pod(2) by (simp add: buildPodLog_def keeps Let_def)
  from silent names pods pod b(1) keeps walk show ?thesis by blast
qed

theorem loadBuilds_only_pods_with_init_containers_witness:
  "loadBuilds exampleOptions legacyEnv startWorld =
     ((fst (fst (loadBuilds exampleOptions legacyEnv startWorld)), None), startWorld) \<and>
   examplePod ''c-4'' [] [] \<in> set legacyPods \<and>
   (\<exists>pod. pod \<in> set legacyPods \<and> length (InitContainers pod) > 0 \<and>
      pipelineMap (fst (fst (loadBuilds exampleOptions legacyEnv startWorld))) ''org/b/master'' =
        Some (BuildPod (CreateBuildPodInfo legacyEnv pod)))"
proof -
  let ?r = "loadBuilds exampleOptions legacyEnv startWorld"
  have ok: "snd (fst ?r) = None"
    by (simp add: example_defs loader_defs)
  then have load: "?r = ((fst (fst ?r), None), snd ?r)"
    by (metis prod.collapse)
  have entry: "pipelineMap (fst (fst ?r)) ''org/b/master'' =
      Some (BuildPod (CreateBuildPodInfo legacyEnv (examplePod ''b-3'' [''git''] [])))"
    by (simp add: example_defs loader_defs)
  have pods: "buildPods legacyEnv (now startWorld) = Inr legacyPods"
    by (simp add: legacyEnv_def quietEnv_def)
  from loadBuilds_only_pods_with_init_containers [OF load disjI2, OF entry] pods
  have "snd ?r = startWorld" and "\<exists>pod. pod \<in> set legacyPods \<and> length (InitContainers pod) > 0 \<and>
      BuildPod (CreateBuildPodInfo legacyEnv (examplePod ''b-3'' [''git''] [])) =
        BuildPod (CreateBuildPodInfo legacyEnv pod)"
    by auto
  with load entry show ?thesis
    by (simp add: CreateBuildPodInfo_def legacyEnv_def quietEnv_def legacyInfo_def
        examplePod_def legacyPods_def)
qed

section \<open>The walker: waits, warnings and streams\<close>

lemma now_emit [simp]: "now (emit e w) = now w"
  by (simp add: emit_def)

lemma trace_emit [simp]: "trace (emit e w) = trace w @ [e]"
  by (simp add: emit_def)

lemma now_sleep [simp]: "now (sleep d w) = now w + d"
  by (simp add: sleep_def)

lemma trace_sleep [simp]: "trace (sleep d w) = trace w @ [Sleep d]"
  by (simp add: sleep_def)

lemma pollUntilStarted_returns:
  assumes "\<forall>j<k. \<exists>q. getPod env (now w + Suc j) name = Inr q \<and> \<not> HasInitContainerStarted q idx"
    and "getPod env (now w + Suc k) name = Inr p" and "HasInitContainerStarted p idx"
  shows "pollUntilStarted env name idx w =
           Some (Inr p, w\<lparr>now := now w + Suc k,
                          trace := trace w @ concat (replicate (Suc k) [Sleep 1, GetPod name])\<rparr>)"
  using assms
proof (induction k arbitrary: w)
  case 0
  then show ?case
    by (subst pollUntilStarted.simps) (simp add: Let_def emit_def sleep_def)
next
  case (Suc k)
  let ?w1 = "emit (GetPod name) (sleep 1 w)"
  from Suc.prems(1) obtain q where q: "getPod env (now w + Suc 0) name = Inr q" "\<not> HasInitContainerStarted q idx"
    by blast
  have step: "pollUntilStarted env name idx w = pollUntilStarted env name idx ?w1"
    using q by (subst pollUntilStarted.simps) (simp add: Let_def)
  have "\<forall>j<k. \<exists>q. getPod env (now ?w1 + Suc j) name = Inr q \<and> \<not> HasInitContainerStarted q idx"
    using Suc.prems(1) by (auto simp add: less_Suc_eq_0_disj)
  moreover have "getPod env (now ?w1 + Suc k) name = Inr p"
    using Suc.prems(2) by simp
  ultimately have "pollUntilStarted env name idx ?w1 =
      Some (Inr p, ?w1\<lparr>now := now ?w1 + Suc k,
                        trace := trace ?w1 @ concat (replicate (Suc k) [Sleep 1, GetPod name])\<rparr>)"
    using Suc.IH [of ?w1] Suc.prems(3) by blast
  then show ?case
    unfolding step by (simp add: emit_def sleep_def)
qed

lemma pollUntilStarted_fails:
  assumes "\<forall>j<k. \<exists>q. getPod env (now w + Suc j) name = Inr q \<and> \<not> HasInitContainerStarted q idx"
    and "getPod env (now w + Suc k) name = Inl msg"
  shows "pollUntilStarted env name idx w =
           Some (Inl (FailedToLoadPod name (QueryFailure msg)),
                 w\<lparr>now := now w + Suc k,
                   trace := trace w @ concat (replicate (Suc k) [Sleep 1, GetPod name])\<rparr>)"
  using assms
proof (induction k arbitrary: w)
  case 0
  then show ?case
    by (subst pollUntilStarted.simps) (simp add: Let_def emit_def sleep_def)
next
  case (Suc k)
  let ?w1 = "emit (GetPod name) (sleep 1 w)"
  from Suc.prems(1) obtain q where q: "getPod env (now w + Suc 0) name = Inr q" "\<not> HasInitContainerStarted q idx"
    by blast
  have step: "pollUntilStarted env name idx w = pollUntilStarted env name idx ?w1"
    using q by (subst pollUntilStarted.simps) (simp add: Let_def)
  have "\<forall>j<k. \<exists>q. getPod env (now ?w1 + Suc j) name = Inr q \<and> \<not> HasInitContainerStarted q idx"
    using Suc.prems(1) by (auto simp add: less_Suc_eq_0_disj)
  moreover have "getPod env (now ?w1 + Suc k) name = Inl msg"
    using Suc.prems(2) by simp
  ultimately have "pollUntilStarted env name idx ?w1 =
      Some (Inl (FailedToLoadPod name (QueryFailure msg)), ?w1\<lparr>now := now ?w1 + Suc k,
                        trace := trace ?w1 @ concat (replicate (Suc k) [Sleep 1, GetPod name])\<rparr>)"
    using Suc.IH [of ?w1] by blast
  then show ?case
    unfolding step by (simp add: emit_def sleep_def)
qed

lemma pollUntilStarted_Some_ends:
  assumes some: "pollUntilStarted env name idx w = Some y"
  shows "\<exists>k. (\<exists>msg. getPod env (now w + Suc k) name = Inl msg) \<or>
         (\<exists>p. getPod env (now w + Suc k) name = Inr p \<and> HasInitContainerStarted p idx)"
proof (rule pollUntilStarted.raw_induct
    [where P = "\<lambda>env name idx w y.
       \<exists>k. (\<exists>msg. getPod env (now w + Suc k) name = Inl msg) \<or>
           (\<exists>p. getPod env (now w + Suc k) name = Inr p \<and> HasInitContainerStarted p idx)",
     OF _ some])
  fix poll :: "Env \<Rightarrow> string \<Rightarrow> nat \<Rightarrow> World \<Rightarrow> ((error + Pod) \<times> World) option"
  fix env name idx w y
  assume IH: "\<And>env name idx w y. poll env name idx w = Some y \<Longrightarrow>
       \<exists>k. (\<exists>msg. getPod env (now w + Suc k) name = Inl msg) \<or>
           (\<exists>p. getPod env (now w + Suc k) name = Inr p \<and> HasInitContainerStarted p idx)"
  assume body: "(let w1 = emit (GetPod name) (sleep 1 w)
      in case getPod env (now w1) name of
         Inl msg \<Rightarrow> Some (Inl (FailedToLoadPod name (QueryFailure msg)), w1)
         | Inr p \<Rightarrow>
             if HasInitContainerStarted p idx then Some (Inr p, w1)
             else poll env name idx w1) = Some y"
  show "\<exists>k. (\<exists>msg. getPod env (now w + Suc k) name = Inl msg) \<or>
           (\<exists>p. getPod env (now w + Suc k) name = Inr p \<and> HasInitContainerStarted p idx)"
  proof (cases "getPod env (now w + Suc 0) name")
    case (Inl msg)
    then show ?thesis by blast
  next
    case (Inr p)
    show ?thesis
    proof (cases "HasInitContainerStarted p idx")
      case True
      with Inr show ?thesis by blast
    next
      case False
      with Inr body have "poll env name idx (emit (GetPod name) (sleep 1 w)) = Some y"
        by (simp add: Let_def)
      from IH [OF this] obtain k where
        "(\<exists>msg. getPod env (now (emit (GetPod name) (sleep 1 w)) + Suc k) name = Inl msg) \<or>
         (\<exists>p. getPod env (now (emit (GetPod name) (sleep 1 w)) + Suc k) name = Inr p \<and>
              HasInitContainerStarted p idx)"
        by blast
      then have
        "(\<exists>msg. getPod env (now w + Suc (Suc k)) name = Inl msg) \<or>
         (\<exists>p. getPod env (now w + Suc (Suc k)) name = Inr p \<and> HasInitContainerStarted p idx)"
        by simp
      then show ?thesis by blast
    qed
  qed
qed

lemma pollUntilStarted_never:
  assumes "\<forall>j. \<exists>q. getPod env (now w + Suc j) name = Inr q \<and> \<not> HasInitContainerStarted q idx"
  shows "pollUntilStarted env name idx w = None"
proof (cases "pollUntilStarted env name idx w")
  case None
  then show ?thesis .
next
  case (Some y)
  from pollUntilStarted_Some_ends [OF this] assms show ?thesis
    by (metis sum.distinct(1) sum.inject(2))
qed

lemma unitSteps_Nil [simp]: "unitSteps [] = []"
  by (simp add: unitSteps_def List.map_filter_simps)

lemma unitSteps_Cons [simp]:
  "unitSteps (e # evs) = (case unitStep e of None \<Rightarrow> unitSteps evs | Some u \<Rightarrow> u # unitSteps evs)"
  by (simp add: unitSteps_def List.map_filter_simps split: option.splits)

lemma unitSteps_append [simp]: "unitSteps (xs @ ys) = unitSteps xs @ unitSteps ys"
  by (simp add: unitSteps_def List.map_filter_def)

lemma unitSteps_polls [simp]: "unitSteps (concat (replicate n [Sleep d, GetPod name])) = []"
  by (induction n) simp_all

lemma failureWarnings_polls [simp]:
  "filter isFailureWarning (concat (replicate n [Sleep d, GetPod name])) = []"
  by (induction n) simp_all

lemma steps_refl [simp]: "steps w w []"
  by (simp add: steps_def)

lemma steps_trans: "steps w w1 a \<Longrightarrow> steps w1 w2 b \<Longrightarrow> steps w w2 (a @ b)"
  by (auto simp add: steps_def)

lemma steps_trans_Nil: "steps w w1 [] \<Longrightarrow> steps w1 w2 b \<Longrightarrow> steps w w2 b"
  using steps_trans [of w w1 "[]" w2 b] by simp

lemma steps_emit: "steps w (emit e w) (unitSteps [e])"
  by (simp add: steps_def)

lemma steps_sleep [simp]: "steps w (sleep d w) []"
  by (simp add: steps_def)

lemma pollUntilStarted_Some:
  assumes some: "pollUntilStarted env name idx w = Some (r, w')"
  shows "\<exists>k. w' = w\<lparr>now := now w + Suc k,
                     trace := trace w @ concat (replicate (Suc k) [Sleep 1, GetPod name])\<rparr> \<and>
             (\<forall>j<k. \<exists>q. getPod env (now w + Suc j) name = Inr q \<and> \<not> HasInitContainerStarted q idx) \<and>
             (case r of
                Inl err \<Rightarrow> \<exists>msg. getPod env (now w + Suc k) name = Inl msg \<and>
                                 err = FailedToLoadPod name (QueryFailure msg)
              | Inr p \<Rightarrow> getPod env (now w + Suc k) name = Inr p \<and> HasInitContainerStarted p idx)"
proof -
  let ?ends = "\<lambda>k. (\<exists>msg. getPod env (now w + Suc k) name = Inl msg) \<or>
         (\<exists>p. getPod env (now w + Suc k) name = Inr p \<and> HasInitContainerStarted p idx)"
  from pollUntilStarted_Some_ends [OF some] have "\<exists>k. ?ends k" .
  then obtain k where k: "?ends k" and least: "\<forall>j<k. \<not> ?ends j"
    using exists_least_iff [of ?ends] by blast
  have before: "\<forall>j<k. \<exists>q. getPod env (now w + Suc j) name = Inr q \<and> \<not> HasInitContainerStarted q idx"
  proof (intro allI impI)
    fix j assume "j < k"
    with least have "\<not> ?ends j" by blast
    then show "\<exists>q. getPod env (now w + Suc j) name = Inr q \<and> \<not> HasInitContainerStarted q idx"
      by (cases "getPod env (now w + Suc j) name") auto
  qed
  from k show ?thesis
  proof
    assume "\<exists>msg. getPod env (now w + Suc k) name = Inl msg"
    then obtain msg where msg: "getPod env (now w + Suc k) name = Inl msg" ..
    from pollUntilStarted_fails [OF before msg] some before msg show ?thesis
      by (intro exI [of _ k]) auto
  next
    assume "\<exists>p. getPod env (now w + Suc k) name = Inr p \<and> HasInitContainerStarted p idx"
    then obtain p where p: "getPod env (now w + Suc k) name = Inr p" "HasInitContainerStarted p idx"
      by blast
    from pollUntilStarted_returns [OF before p] some before p show ?thesis
      by (intro exI [of _ k]) auto
  qed
qed

lemma pollUntilStarted_trace:
  assumes "pollUntilStarted env name idx w = Some (r, w')"
  shows "\<exists>evs. trace w' = trace w @ evs \<and> unitSteps evs = [] \<and> filter isFailureWarning evs = []"
  using pollUntilStarted_Some [OF assms] by auto

lemma waitForInitContainerToStart_trace:
  assumes "waitForInitContainerToStart env pod i w = Some (r, w')"
  shows "\<exists>evs. trace w' = trace w @ CallWaitForInitContainerToStart (pod_Name pod) i # evs \<and>
               unitSteps evs = [] \<and> filter isFailureWarning evs = []"
proof (cases "Phase pod = PodFailed \<or> HasInitContainerStarted pod i")
  case True
  with assms show ?thesis
    by (auto simp add: waitForInitContainerToStart_def Let_def split: if_splits)
next
  case False
  let ?w1 = "emit (InfoWaitingForInitContainer (pod_Name pod)
                (if i < length (InitContainers pod) then c_Name (InitContainers pod ! i) else []))
              (emit (CallWaitForInitContainerToStart (pod_Name pod) i) w)"
  from False assms have "pollUntilStarted env (pod_Name pod) i ?w1 = Some (r, w')"
    by (simp add: waitForInitContainerToStart_def Let_def)
  from pollUntilStarted_trace [OF this] show ?thesis by auto
qed

lemma waitForInitContainerToStart_steps:
  "waitForInitContainerToStart env pod i w = Some (r, w') \<Longrightarrow> steps w w' [Await i]"
  using waitForInitContainerToStart_trace [of env pod i w r w'] by (auto simp add: steps_def)

lemma failureCheck_eq:
  "failureCheck i pod w =
     (None,
      if 0 < i \<and> i < length (InitContainerStatuses pod) \<and>
         (\<exists>t. cs_Terminated (InitContainerStatuses pod ! (i - 1)) = Some t \<and> ExitCode t \<noteq> 0)
      then emit (WarnContainerFailed (cs_Name (InitContainerStatuses pod ! (i - 1)))
                   (ExitCode (the (cs_Terminated (InitContainerStatuses pod ! (i - 1)))))
                   (Message (the (cs_Terminated (InitContainerStatuses pod ! (i - 1)))))) w
      else w)"
  by (auto simp add: failureCheck_def index_def Let_def nat_diff_distrib' split: option.splits)

lemma failureCheck_steps: "failureCheck i pod w = (r, w') \<Longrightarrow> r = None \<and> steps w w' []"
  by (auto simp add: failureCheck_eq steps_def split: if_splits)

lemma getStageLog_steps:
  "getStageLog env build stageName pod ic w = (r, w') \<Longrightarrow>
     steps w w' [Header stageName (c_Name ic), Stream (c_Name ic)]"
  by (auto simp add: getStageLog_def TailLogs_def steps_def split: prod.splits)

lemma stageUnits_Cons:
  "stageUnits stageName i (ic # ics) =
     [Await i, Header stageName (c_Name ic), Stream (c_Name ic)] @ stageUnits stageName (Suc i) ics"
  by (simp add: stageUnits_def)

lemma visitInitContainers_steps:
  "visitInitContainers env (getStageLog env build stageName) podName i ics w = Some (None, w') \<Longrightarrow>
     steps w w' (stageUnits stageName i ics)"
proof (induction ics arbitrary: i w)
  case Nil
  then show ?case by (simp add: stageUnits_def)
next
  case (Cons ic ics)
  from Cons.prems obtain pod where pod: "getPod env (now w) podName = Inr pod"
    by (cases "getPod env (now w) podName") (simp_all add: Let_def)
  let ?w1 = "emit (GetPod podName) w"
  obtain r2 w2 where fc: "failureCheck i pod ?w1 = (r2, w2)" by fastforce
  from failureCheck_steps [OF fc] have r2: "r2 = None" and s2: "steps ?w1 w2 []" by simp_all
  from Cons.prems pod fc r2 obtain pod1 w3 where
    wait: "waitForInitContainerToStart env pod i w2 = Some (Inr pod1, w3)"
    by (auto simp add: Let_def split: option.splits sum.splits)
  from Cons.prems pod fc r2 wait obtain w4 where
    log: "getStageLog env build stageName pod1 ic w3 = (None, w4)" and
    rest: "visitInitContainers env (getStageLog env build stageName) podName (Suc i) ics w4 = Some (None, w')"
    by (auto simp add: Let_def split: option.splits prod.splits)
  have "steps w ?w1 []" using steps_emit [of w "GetPod podName"] by simp
  then have "steps w w2 []" using s2 steps_trans_Nil by blast
  then have "steps w w3 [Await i]"
    using waitForInitContainerToStart_steps [OF wait] steps_trans_Nil by blast
  then have "steps w w4 ([Await i] @ [Header stageName (c_Name ic), Stream (c_Name ic)])"
    using getStageLog_steps [OF log] steps_trans by blast
  then have "steps w w' (([Await i] @ [Header stageName (c_Name ic), Stream (c_Name ic)]) @
      stageUnits stageName (Suc i) ics)"
    using Cons.IH [OF rest] steps_trans by blast
  then show ?case by (simp add: stageUnits_Cons)
qed

declare RetryFrom.simps [simp del]

lemma RetryFrom_steps_aux:
  "(\<forall>w r w'. f w = (r, w') \<longrightarrow> steps w w' []) \<Longrightarrow>
   RetryFrom interval maxElapsedTime elapsed f w = (r, w') \<Longrightarrow> steps w w' []"
proof (induction interval maxElapsedTime elapsed f w rule: RetryFrom.induct)
  case (1 interval maxElapsedTime elapsed f w)
  obtain x w1 where fw: "f w = (x, w1)" by fastforce
  from "1.prems"(1) fw have s1: "steps w w1 []" by blast
  show ?case
  proof (cases x)
    case (Inr v)
    with fw "1.prems"(2) s1 show ?thesis
      by (simp add: RetryFrom.simps)
  next
    case (Inl err)
    show ?thesis
    proof (cases "maxElapsedTime \<le> elapsed \<or> interval = 0")
      case True
      with Inl fw "1.prems"(2) s1 show ?thesis
        by (auto simp add: RetryFrom.simps)
    next
      case False
      with Inl fw "1.prems"(2) have
        "RetryFrom interval maxElapsedTime (elapsed + interval) f (sleep interval w1) = (r, w')"
        by (simp add: RetryFrom.simps)
      from "1.IH" [OF fw [symmetric] Inl False "1.prems"(1) this]
      have "steps (sleep interval w1) w' []" .
      with s1 show ?thesis
        using steps_trans_Nil steps_sleep by blast
    qed
  qed
qed

lemma RetryFrom_steps:
  assumes "\<And>w r w'. f w = (r, w') \<Longrightarrow> steps w w' []"
    and "RetryFrom interval maxElapsedTime elapsed f w = (r, w')"
  shows "steps w w' []"
  using RetryFrom_steps_aux [of f interval maxElapsedTime elapsed w r w'] assms by blast

lemma setPodsAttempt_steps: "setPodsAttempt env pr stage w = (r, w') \<Longrightarrow> steps w w' []"
  by (auto simp add: setPodsAttempt_def steps_def split: sum.splits option.splits)

lemma resolveStagePod_steps:
  assumes "resolveStagePod opts env pr stage w = (Inr pod, w1)"
  shows "steps w w1 [] \<and> (st_Pod stage = None \<or> st_Pod stage = Some pod)"
proof (cases "st_Pod stage")
  case None
  with assms have "RetryFrom (retryInterval env) (WaitForPipelineDuration opts) 0
      (setPodsAttempt env pr stage) w = (Inr pod, w1)"
    by (simp add: resolveStagePod_def Retry_def)
  from RetryFrom_steps [OF setPodsAttempt_steps this] None show ?thesis by simp
next
  case (Some p)
  with assms show ?thesis by (simp add: resolveStagePod_def)
qed

lemma walkStages_steps:
  "walkStages opts env pr name suffix stages w = Some (None, w') \<Longrightarrow>
     \<exists>pods. list_all2 (\<lambda>stage pod. st_Pod stage = None \<or> st_Pod stage = Some pod) stages pods \<and>
            steps w w' (pipelineUnits stages pods)"
proof (induction stages arbitrary: w)
  case Nil
  then show ?case by (simp add: pipelineUnits_def)
next
  case (Cons stage stages)
  obtain x w1 where res: "resolveStagePod opts env pr stage w = (x, w1)" by fastforce
  with Cons.prems obtain pod where x: "x = Inr pod" by (cases x) simp_all
  from resolveStagePod_steps [OF res [unfolded x]]
  have s1: "steps w w1 []" and known: "st_Pod stage = None \<or> st_Pod stage = Some pod" by simp_all
  from Cons.prems res x obtain w2 where
    visit: "visitInitContainers env (getStageLog env (name @ suffix) (GetStageNameIncludingParents stage))
              (pod_Name pod) 0 (InitContainers pod) w1 = Some (None, w2)" and
    rest: "walkStages opts env pr name suffix stages w2 = Some (None, w')"
    by (auto simp add: Let_def split: if_splits option.splits prod.splits)
  from Cons.IH [OF rest] obtain pods where
    pods: "list_all2 (\<lambda>stage pod. st_Pod stage = None \<or> st_Pod stage = Some pod) stages pods" and
    s3: "steps w2 w' (pipelineUnits stages pods)" by blast
  have "steps w w2 (stageUnits (GetStageNameIncludingParents stage) 0 (InitContainers pod))"
    using s1 visitInitContainers_steps [OF visit] steps_trans_Nil by blast
  with s3 have "steps w w' (pipelineUnits (stage # stages) (pod # pods))"
    using steps_trans by (fastforce simp add: pipelineUnits_def)
  with known pods show ?case
    by (intro exI [of _ "pod # pods"]) simp
qed

lemma walkStages_append:
  "walkStages opts env pr name suffix (xs @ ys) w =
     (case walkStages opts env pr name suffix xs w of
        None \<Rightarrow> None
      | Some (Some err, w1) \<Rightarrow> Some (Some err, w1)
      | Some (None, w1) \<Rightarrow> walkStages opts env pr name suffix ys w1)"
  by (induction xs arbitrary: w) (auto simp add: Let_def split: option.splits prod.splits sum.splits)

lemmas walker_defs =
  pipelineRunLog_def buildPodLog_def GetOrderedTaskStages_def GetStageNameIncludingParents_def
  resolveStagePod_def waitForInitContainerToStart_def HasInitContainerStarted_def
  failureCheck_def index_def getStageLog_def getPodLog_def TailLogs_def emit_def sleep_def Let_def

text \<open>
  C7. \<^verbatim>\<open>waitForInitContainerToStart\<close> returns the pod it was given, without a sleep
  or a read, when the pod has failed (with a warning) or when the container has
  started. Otherwise it sleeps one second before every read of the pod, and returns the
  pod of the first read that shows the container started, however late that is; when
  no read ever shows it, the function does not return.
\<close>

theorem waitForInitContainerToStart_returns_or_polls:
  "(Phase pod = PodFailed \<longrightarrow>
      waitForInitContainerToStart env pod idx w =
        Some (Inr pod,
              w\<lparr>trace := trace w @ [CallWaitForInitContainerToStart (pod_Name pod) idx,
                                       WarnPodHasFailed (pod_Name pod)]\<rparr>)) \<and>
   (Phase pod \<noteq> PodFailed \<and> HasInitContainerStarted pod idx \<longrightarrow>
      waitForInitContainerToStart env pod idx w =
        Some (Inr pod, w\<lparr>trace := trace w @ [CallWaitForInitContainerToStart (pod_Name pod) idx]\<rparr>)) \<and>
   (Phase pod \<noteq> PodFailed \<and> \<not> HasInitContainerStarted pod idx \<and>
    (\<forall>j<k. \<exists>q. getPod env (now w + Suc j) (pod_Name pod) = Inr q \<and> \<not> HasInitContainerStarted q idx) \<and>
    getPod env (now w + Suc k) (pod_Name pod) = Inr p \<and> HasInitContainerStarted p idx \<longrightarrow>
      waitForInitContainerToStart env pod idx w =
        Some (Inr p,
              w\<lparr>now := now w + Suc k,
                trace := trace w @
                  [CallWaitForInitContainerToStart (pod_Name pod) idx,
                   InfoWaitingForInitContainer (pod_Name pod)
                     (if idx < length (InitContainers pod) then c_Name (InitContainers pod ! idx) else [])] @
                  concat (replicate (Suc k) [Sleep 1, GetPod (pod_Name pod)])\<rparr>)) \<and>
   (Phase pod \<noteq> PodFailed \<and> \<not> HasInitContainerStarted pod idx \<and>
    (\<forall>j. \<exists>q. getPod env (now w + Suc j) (pod_Name pod) = Inr q \<and> \<not> HasInitContainerStarted q idx) \<longrightarrow>
      waitForInitContainerToStart env pod idx w = None)"
proof (intro conjI impI)
  assume "Phase pod = PodFailed"
  then show "waitForInitContainerToStart env pod idx w =
        Some (Inr pod,
              w\<lparr>trace := trace w @ [CallWaitForInitContainerToStart (pod_Name pod) idx,
                                       WarnPodHasFailed (pod_Name pod)]\<rparr>)"
    by (simp add: waitForInitContainerToStart_def emit_def)
next
  assume "Phase pod \<noteq> PodFailed \<and> HasInitContainerStarted pod idx"
  then show "waitForInitContainerToStart env pod idx w =
        Some (Inr pod, w\<lparr>trace := trace w @ [CallWaitForInitContainerToStart (pod_Name pod) idx]\<rparr>)"
    by (simp add: waitForInitContainerToStart_def emit_def)
next
  let ?w1 = "emit (InfoWaitingForInitContainer (pod_Name pod)
                (if idx < length (InitContainers pod) then c_Name (InitContainers pod ! idx) else []))
              (emit (CallWaitForInitContainerToStart (pod_Name pod) idx) w)"
  assume a: "Phase pod \<noteq> PodFailed \<and> \<not> HasInitContainerStarted pod idx \<and>
    (\<forall>j<k. \<exists>q. getPod env (now w + Suc j) (pod_Name pod) = Inr q \<and> \<not> HasInitContainerStarted q idx) \<and>
    getPod env (now w + Suc k) (pod_Name pod) = Inr p \<and> HasInitContainerStarted p idx"
  then have "pollUntilStarted env (pod_Name pod) idx ?w1 =
      Some (Inr p, ?w1\<lparr>now := now ?w1 + Suc k,
                        trace := trace ?w1 @ concat (replicate (Suc k) [Sleep 1, GetPod (pod_Name pod)])\<rparr>)"
    by (intro pollUntilStarted_returns) simp_all
  with a show "waitForInitContainerToStart env pod idx w =
        Some (Inr p,
              w\<lparr>now := now w + Suc k,
                trace := trace w @
                  [CallWaitForInitContainerToStart (pod_Name pod) idx,
                   InfoWaitingForInitContainer (pod_Name pod)
                     (if idx < length (InitContainers pod) then c_Name (InitContainers pod ! idx) else [])] @
                  concat (replicate (Suc k) [Sleep 1, GetPod (pod_Name pod)])\<rparr>)"
    by (simp add: waitForInitContainerToStart_def Let_def emit_def)
next
  let ?w1 = "emit (InfoWaitingForInitContainer (pod_Name pod)
                (if idx < length (InitContainers pod) then c_Name (InitContainers pod ! idx) else []))
              (emit (CallWaitForInitContainerToStart (pod_Name pod) idx) w)"
  assume a: "Phase pod \<noteq> PodFailed \<and> \<not> HasInitContainerStarted pod idx \<and>
    (\<forall>j. \<exists>q. getPod env (now w + Suc j) (pod_Name pod) = Inr q \<and> \<not> HasInitContainerStarted q idx)"
  then have "pollUntilStarted env (pod_Name pod) idx ?w1 = None"
    by (intro pollUntilStarted_never) simp
  with a show "waitForInitContainerToStart env pod idx w = None"
    by (simp add: waitForInitContainerToStart_def Let_def)
qed

theorem waitForInitContainerToStart_returns_or_polls_witness:
  "waitForInitContainerToStart slowEnv shortStatusPod 1 startWorld =
     Some (Inr shortStatusPod,
           startWorld\<lparr>trace := [CallWaitForInitContainerToStart ''job'' 1, WarnPodHasFailed ''job'']\<rparr>) \<and>
   waitForInitContainerToStart slowEnv (slowPod 5) 0 startWorld =
     Some (Inr (slowPod 5), startWorld\<lparr>trace := [CallWaitForInitContainerToStart ''slow-pod'' 0]\<rparr>) \<and>
   waitForInitContainerToStart slowEnv (slowPod 0) 0 startWorld =
     Some (Inr (slowPod 3),
           startWorld\<lparr>now := 3,
             trace := [CallWaitForInitContainerToStart ''slow-pod'' 0,
                       InfoWaitingForInitContainer ''slow-pod'' ''a'',
                       Sleep 1, GetPod ''slow-pod'', Sleep 1, GetPod ''slow-pod'',
                       Sleep 1, GetPod ''slow-pod'']\<rparr>) \<and>
   waitForInitContainerToStart stuckEnv (slowPod 0) 0 startWorld = None"
proof -
  have failed: "Phase shortStatusPod = PodFailed"
    by (simp add: example_defs)
  have started: "Phase (slowPod 5) \<noteq> PodFailed \<and> HasInitContainerStarted (slowPod 5) 0"
    by (simp add: example_defs HasInitContainerStarted_def)
  have slow: "Phase (slowPod 0) \<noteq> PodFailed \<and> \<not> HasInitContainerStarted (slowPod 0) 0 \<and>
    (\<forall>j<2. \<exists>q. getPod slowEnv (now startWorld + Suc j) (pod_Name (slowPod 0)) = Inr q \<and>
                 \<not> HasInitContainerStarted q 0) \<and>
    getPod slowEnv (now startWorld + Suc 2) (pod_Name (slowPod 0)) = Inr (slowPod 3) \<and>
    HasInitContainerStarted (slowPod 3) 0"
    by (auto simp add: example_defs HasInitContainerStarted_def)
  have stuck: "Phase (slowPod 0) \<noteq> PodFailed \<and> \<not> HasInitContainerStarted (slowPod 0) 0 \<and>
    (\<forall>j. \<exists>q. getPod stuckEnv (now startWorld + Suc j) (pod_Name (slowPod 0)) = Inr q \<and>
               \<not> HasInitContainerStarted q 0)"
    by (simp add: example_defs HasInitContainerStarted_def)
  from failed started slow stuck
    waitForInitContainerToStart_returns_or_polls [of shortStatusPod slowEnv 1 startWorld 0 shortStatusPod]
    waitForInitContainerToStart_returns_or_polls [of "slowPod 5" slowEnv 0 startWorld 0 "slowPod 5"]
    waitForInitContainerToStart_returns_or_polls [of "slowPod 0" slowEnv 0 startWorld 2 "slowPod 3"]
    waitForInitContainerToStart_returns_or_polls [of "slowPod 0" stuckEnv 0 startWorld 0 "slowPod 0"]
  show ?thesis
    by (simp add: example_defs numeral_2_eq_2 numeral_3_eq_3)
qed

text \<open>
  C9. The failure check never panics: under its two guards the index \<open>i - 1\<close> is in
  range. When the pod has \<open>i\<close> statuses or fewer the check does nothing, whatever
  the statuses say (in the witness the status of the container before has exit code 1).
\<close>

theorem failureCheck_guarded:
  "fst (failureCheck i pod w) = None \<and>
   (0 < i \<and> i < length (InitContainerStatuses pod) \<longrightarrow>
      index (InitContainerStatuses pod) (int i - 1) = Inr (InitContainerStatuses pod ! (i - 1))) \<and>
   (length (InitContainerStatuses pod) \<le> i \<longrightarrow> failureCheck i pod w = (None, w))"
  by (auto simp add: failureCheck_def index_def Let_def nat_diff_distrib' split: option.splits)

theorem failureCheck_guarded_witness:
  "index (InitContainerStatuses failedFirstPod) (int 1 - 1) = Inr (failedStatus ''u0'' 1 ''boom'') \<and>
   length (InitContainerStatuses shortStatusPod) \<le> 1 \<and>
   map_option ExitCode (cs_Terminated (InitContainerStatuses shortStatusPod ! 0)) = Some 1 \<and>
   failureCheck 1 shortStatusPod startWorld = (None, startWorld)"
proof -
  have inb: "0 < (1::nat) \<and> 1 < length (InitContainerStatuses failedFirstPod)"
    by (simp add: example_defs)
  have short: "length (InitContainerStatuses shortStatusPod) \<le> 1"
    by (simp add: example_defs)
  from inb short
    failureCheck_guarded [of 1 failedFirstPod startWorld]
    failureCheck_guarded [of 1 shortStatusPod startWorld]
  show ?thesis
    by (simp add: example_defs)
qed

text \<open>
  C5, as claimed: whenever the snapshot records the unit before as terminated with a
  non-zero exit code, a warning is logged. It does not hold: the pod read before the
  second container records the first as terminated with exit code 1, but has one
  status only; both containers are waited for and streamed, and no warning is logged.
\<close>

theorem failure_warning_missing_when_statuses_short:
  "getPod shortStatusEnv 1 ''job'' = Inr shortStatusPod \<and>
   InitContainers shortStatusPod = [\<lparr>c_Name = ''u0''\<rparr>, \<lparr>c_Name = ''u1''\<rparr>] \<and>
   map_option ExitCode (cs_Terminated (InitContainerStatuses shortStatusPod ! 0)) = Some 1 \<and>
   map_option fst
     (visitInitContainers shortStatusEnv (getPodLog shortStatusEnv) ''job'' 0
        (InitContainers shortStatusPod) startWorld) = Some None \<and>
   map_option (\<lambda>r. filter isFailureWarning (trace (snd r)))
     (visitInitContainers shortStatusEnv (getPodLog shortStatusEnv) ''job'' 0
        (InitContainers shortStatusPod) startWorld) = Some [] \<and>
   map_option (\<lambda>r. unitSteps (trace (snd r)))
     (visitInitContainers shortStatusEnv (getPodLog shortStatusEnv) ''job'' 0
        (InitContainers shortStatusPod) startWorld) =
     Some [Await 0, Stream ''u0'', Await 1, Stream ''u1'']"
  by (simp add: example_defs walker_defs)

text \<open>
  C5, amended: for an index \<open>i > 0\<close> within a pod's init containers, when the pod
  read at the start of the iteration has more than \<open>i\<close> statuses and status
  \<open>i - 1\<close> is terminated with a non-zero exit code, the warning with that status's
  name, exit code and message is logged once, after the read and before the entry into
  the wait for container \<open>i\<close>, and the wait logs no such warning again; when the
  wait and the stream of container \<open>i\<close> return without error, the loop goes on with
  container \<open>i + 1\<close>.
\<close>

theorem failure_warning_once_before_wait:
  assumes read: "getPod env (now w) podName = Inr pod"
    and i: "0 < i" "i < length (InitContainerStatuses pod)"
    and failed: "cs_Terminated (InitContainerStatuses pod ! (i - 1)) = Some terminated"
      "ExitCode terminated \<noteq> 0"
    and wait: "waitForInitContainerToStart env pod i
                 (emit (WarnContainerFailed (cs_Name (InitContainerStatuses pod ! (i - 1)))
                          (ExitCode terminated) (Message terminated))
                    (emit (GetPod podName) w)) = Some (Inr pod1, w3)"
    and stream: "getLog pod1 ic w3 = (None, w4)"
  shows "visitInitContainers env getLog podName i (ic # ics) w =
           visitInitContainers env getLog podName (Suc i) ics w4 \<and>
         (\<exists>evs. trace w3 =
                  trace w @
                  [GetPod podName,
                   WarnContainerFailed (cs_Name (InitContainerStatuses pod ! (i - 1)))
                     (ExitCode terminated) (Message terminated),
                   CallWaitForInitContainerToStart (pod_Name pod) i] @ evs \<and>
                filter isFailureWarning evs = [])"
proof -
  let ?warn = "WarnContainerFailed (cs_Name (InitContainerStatuses pod ! (i - 1)))
                 (ExitCode terminated) (Message terminated)"
  have check: "failureCheck i pod (emit (GetPod podName) w) = (None, emit ?warn (emit (GetPod podName) w))"
    using i failed by (simp add: failureCheck_eq)
  have visit: "visitInitContainers env getLog podName i (ic # ics) w =
           visitInitContainers env getLog podName (Suc i) ics w4"
    using read check wait stream by (simp add: Let_def)
  from waitForInitContainerToStart_trace [OF wait] obtain evs where
    "trace w3 = trace (emit ?warn (emit (GetPod podName) w)) @
        CallWaitForInitContainerToStart (pod_Name pod) i # evs"
    "filter isFailureWarning evs = []" by blast
  then have "trace w3 = trace w @ [GetPod podName, ?warn,
      CallWaitForInitContainerToStart (pod_Name pod) i] @ evs \<and> filter isFailureWarning evs = []"
    by simp
  with visit show ?thesis by blast
qed

theorem failure_warning_once_before_wait_witness:
  "getPod failedFirstEnv (now startWorld) ''job'' = Inr failedFirstPod \<and>
   cs_Terminated (InitContainerStatuses failedFirstPod ! (1 - 1)) = Some \<lparr>ExitCode = 1, Message = ''boom''\<rparr> \<and>
   visitInitContainers failedFirstEnv (getPodLog failedFirstEnv) ''job'' 1
       [\<lparr>c_Name = ''u1''\<rparr>, \<lparr>c_Name = ''u2''\<rparr>] startWorld =
     visitInitContainers failedFirstEnv (getPodLog failedFirstEnv) ''job'' (Suc 1) [\<lparr>c_Name = ''u2''\<rparr>]
       \<lparr>now = 1,
        trace = [GetPod ''job'', WarnContainerFailed ''u0'' 1 ''boom'',
                 CallWaitForInitContainerToStart ''job'' 1,
                 InfoGettingPodLog ''job'' ''u1'', CallTailLogs ''job'' ''u1'']\<rparr> \<and>
   map_option (\<lambda>r. unitSteps (trace (snd r)))
     (visitInitContainers failedFirstEnv (getPodLog failedFirstEnv) ''job'' 1
        [\<lparr>c_Name = ''u1''\<rparr>, \<lparr>c_Name = ''u2''\<rparr>] startWorld) =
     Some [Await 1, Stream ''u1'', Await 2, Stream ''u2'']"
proof -
  let ?w3 = "\<lparr>now = 0, trace = [GetPod ''job'', WarnContainerFailed ''u0'' 1 ''boom'',
                 CallWaitForInitContainerToStart ''job'' 1]\<rparr>"
  let ?w4 = "\<lparr>now = 1,
        trace = [GetPod ''job'', WarnContainerFailed ''u0'' 1 ''boom'',
                 CallWaitForInitContainerToStart ''job'' 1,
                 InfoGettingPodLog ''job'' ''u1'', CallTailLogs ''job'' ''u1'']\<rparr>"
  have read: "getPod failedFirstEnv (now startWorld) ''job'' = Inr failedFirstPod"
    by (simp add: example_defs)
  have i: "0 < (1::nat)" "1 < length (InitContainerStatuses failedFirstPod)"
    by (simp_all add: example_defs)
  have failed: "cs_Terminated (InitContainerStatuses failedFirstPod ! (1 - 1)) =
      Some \<lparr>ExitCode = 1, Message = ''boom''\<rparr>" "ExitCode \<lparr>ExitCode = 1, Message = ''boom''\<rparr> \<noteq> 0"
    by (simp_all add: example_defs)
  have wait: "waitForInitContainerToStart failedFirstEnv failedFirstPod 1
                 (emit (WarnContainerFailed (cs_Name (InitContainerStatuses failedFirstPod ! (1 - 1)))
                          (ExitCode \<lparr>ExitCode = 1, Message = ''boom''\<rparr>)
                          (Message \<lparr>ExitCode = 1, Message = ''boom''\<rparr>))
                    (emit (GetPod ''job'') startWorld)) = Some (Inr failedFirstPod, ?w3)"
    by (simp add: example_defs walker_defs)
  have stream: "getPodLog failedFirstEnv failedFirstPod \<lparr>c_Name = ''u1''\<rparr> ?w3 = (None, ?w4)"
    by (simp add: example_defs walker_defs)
  have rest: "map_option (\<lambda>r. unitSteps (trace (snd r)))
     (visitInitContainers failedFirstEnv (getPodLog failedFirstEnv) ''job'' (Suc 1) [\<lparr>c_Name = ''u2''\<rparr>] ?w4) =
     Some [Await 1, Stream ''u1'', Await 2, Stream ''u2'']"
    by (simp add: example_defs walker_defs)
  have eq: "visitInitContainers failedFirstEnv (getPodLog failedFirstEnv) ''job'' 1
       [\<lparr>c_Name = ''u1''\<rparr>, \<lparr>c_Name = ''u2''\<rparr>] startWorld =
     visitInitContainers failedFirstEnv (getPodLog failedFirstEnv) ''job'' (Suc 1) [\<lparr>c_Name = ''u2''\<rparr>] ?w4"
    using failure_warning_once_before_wait
         [where getLog = "getPodLog failedFirstEnv" and ic = "\<lparr>c_Name = ''u1''\<rparr>"
            and ics = "[\<lparr>c_Name = ''u2''\<rparr>]", OF read i failed wait stream]
    by (rule conjunct1)
  from rest have last: "map_option (\<lambda>r. unitSteps (trace (snd r)))
     (visitInitContainers failedFirstEnv (getPodLog failedFirstEnv) ''job'' 1
        [\<lparr>c_Name = ''u1''\<rparr>, \<lparr>c_Name = ''u2''\<rparr>] startWorld) =
     Some [Await 1, Stream ''u1'', Await 2, Stream ''u2'']"
    by (simp only: eq)
  from read failed(1) eq last show ?thesis
    by (intro conjI)
qed

text \<open>
  C4. When the walk of a pipeline run returns without error, there is one pod for each
  stage (the stage's own pod where it had one, else the pod the retry found), and the
  waits, headers and streams of the trace are exactly, stage by stage in the order of
  \<^verbatim>\<open>GetOrderedTaskStages\<close> and container by container in the order of the pod's
  init containers, the wait for the container, its header and its stream: the wait for
  a container comes after the stream of the container before it.
\<close>

theorem pipelineRunLog_visits_units_in_order:
  assumes "pipelineRunLog opts env name suffix pr w = Some (None, w')"
  shows "\<exists>pods evs.
           list_all2 (\<lambda>stage pod. st_Pod stage = None \<or> st_Pod stage = Some pod)
             (GetOrderedTaskStages pr) pods \<and>
           trace w' = trace w @ evs \<and>
           unitSteps evs = pipelineUnits (GetOrderedTaskStages pr) pods"
proof -
  let ?w0 = "emit (InfoBuildLogsFor (name @ suffix)) w"
  from assms have "walkStages opts env pr name suffix (GetOrderedTaskStages pr) ?w0 = Some (None, w')"
    by (simp add: pipelineRunLog_def)
  from walkStages_steps [OF this] obtain pods where
    pods: "list_all2 (\<lambda>stage pod. st_Pod stage = None \<or> st_Pod stage = Some pod)
             (GetOrderedTaskStages pr) pods" and
    s: "steps ?w0 w' (pipelineUnits (GetOrderedTaskStages pr) pods)" by blast
  have "steps w ?w0 []" using steps_emit [of w "InfoBuildLogsFor (name @ suffix)"] by simp
  with s have "steps w w' (pipelineUnits (GetOrderedTaskStages pr) pods)"
    using steps_trans_Nil by blast
  with pods show ?thesis by (auto simp add: steps_def)
qed

text \<open>
  The example of the specification: the stages Build (containers a, b) and Test
  (container c) are visited as Build/a, Build/b, Test/c.
\<close>

theorem pipelineRunLog_visits_units_in_order_witness:
  "map_option fst (pipelineRunLog exampleOptions tektonEnv ''org/app/master #1'' [] exampleRun startWorld) = Some None \<and>
   (\<exists>pods evs.
      list_all2 (\<lambda>stage pod. st_Pod stage = None \<or> st_Pod stage = Some pod)
        (GetOrderedTaskStages exampleRun) pods \<and>
      trace (snd (the (pipelineRunLog exampleOptions tektonEnv ''org/app/master #1'' [] exampleRun startWorld))) =
        trace startWorld @ evs \<and>
      unitSteps evs =
        [Await 0, Header [''Build''] ''a'', Stream ''a'',
         Await 1, Header [''Build''] ''b'', Stream ''b'',
         Await 0, Header [''Test''] ''c'', Stream ''c''])"
proof -
  let ?run = "pipelineRunLog exampleOptions tektonEnv ''org/app/master #1'' [] exampleRun startWorld"
  have ok: "map_option fst ?run = Some None"
    by (simp add: example_defs walker_defs)
  then have run: "?run = Some (None, snd (the ?run))"
    by (cases ?run) auto
  from pipelineRunLog_visits_units_in_order [OF run] obtain pods evs where
    pods: "list_all2 (\<lambda>stage pod. st_Pod stage = None \<or> st_Pod stage = Some pod)
        (GetOrderedTaskStages exampleRun) pods" and
    tr: "trace (snd (the ?run)) = trace startWorld @ evs" and
    us: "unitSteps evs = pipelineUnits (GetOrderedTaskStages exampleRun) pods"
    by blast
  from pods have "pods = [buildStagePod, testStagePod]"
    by (auto simp add: GetOrderedTaskStages_def exampleRun_def list_all2_Cons1)
  with us have "unitSteps evs =
        [Await 0, Header [''Build''] ''a'', Stream ''a'',
         Await 1, Header [''Build''] ''b'', Stream ''b'',
         Await 0, Header [''Test''] ''c'', Stream ''c'']"
    by (simp add: pipelineUnits_def stageUnits_def GetOrderedTaskStages_def
        GetStageNameIncludingParents_def exampleRun_def buildStagePod_def testStagePod_def
        examplePod_def enumerate_eq_zip upt_rec)
  with ok pods tr show ?thesis by blast
qed

text \<open>
  C8. When the pod of a stage, once known, has no init container, the walk of the
  stages ends there with the error that names the pod and the build: nothing is waited
  for or streamed after the stages before it, whatever stages follow. The legacy branch
  ends in the same error before anything is logged.
\<close>

theorem no_init_containers_is_terminal:
  "(walkStages opts env pr name suffix before w = Some (None, w1) \<and>
    resolveStagePod opts env pr stage w1 = (Inr pod, w2) \<and> InitContainers pod = [] \<longrightarrow>
      walkStages opts env pr name suffix (before @ stage # after) w =
        Some (Some (NoInitContainers (pod_Name pod) name), w2) \<and>
      (\<exists>evs. trace w2 = trace w1 @ evs \<and> unitSteps evs = [])) \<and>
   (bp_Pod b = Some pod \<and> InitContainers pod = [] \<longrightarrow>
      buildPodLog env name suffix b w = Some (Some (NoInitContainers (pod_Name pod) name), w))"
proof (intro conjI impI)
  assume a: "walkStages opts env pr name suffix before w = Some (None, w1) \<and>
    resolveStagePod opts env pr stage w1 = (Inr pod, w2) \<and> InitContainers pod = []"
  then show "walkStages opts env pr name suffix (before @ stage # after) w =
        Some (Some (NoInitContainers (pod_Name pod) name), w2)"
    by (simp add: walkStages_append)
  from a resolveStagePod_steps [of opts env pr stage w1 pod w2]
  show "\<exists>evs. trace w2 = trace w1 @ evs \<and> unitSteps evs = []"
    by (simp add: steps_def)
next
  assume "bp_Pod b = Some pod \<and> InitContainers pod = []"
  then show "buildPodLog env name suffix b w = Some (Some (NoInitContainers (pod_Name pod) name), w)"
    by (simp add: buildPodLog_def)
qed

theorem no_init_containers_is_terminal_witness:
  "map_option fst
     (walkStages exampleOptions tektonEnv exampleRun ''org/c/PR-7 #4'' []
        (take 1 (pr_Stages exampleRun)) startWorld) = Some None \<and>
   map_option (\<lambda>r. (fst r, unitSteps (trace (snd r))))
     (walkStages exampleOptions tektonEnv exampleRun ''org/c/PR-7 #4'' []
        (take 1 (pr_Stages exampleRun) @ emptyStage # drop 1 (pr_Stages exampleRun)) startWorld) =
     Some (Some (NoInitContainers ''empty-pod'' ''org/c/PR-7 #4''),
           [Await 0, Header [''Build''] ''a'', Stream ''a'', Await 1, Header [''Build''] ''b'', Stream ''b'']) \<and>
   buildPodLog legacyEnv ''org/c/PR-7 #4'' [] (CreateBuildPodInfo legacyEnv (examplePod ''c-4'' [] [])) startWorld =
     Some (Some (NoInitContainers ''c-4'' ''org/c/PR-7 #4''), startWorld)"
proof -
  let ?before = "walkStages exampleOptions tektonEnv exampleRun ''org/c/PR-7 #4'' []
        (take 1 (pr_Stages exampleRun)) startWorld"
  have ok: "map_option fst ?before = Some None"
    by (simp add: example_defs walker_defs)
  then have before: "?before = Some (None, snd (the ?before))"
    by (cases ?before) auto
  have steps: "unitSteps (trace (snd (the ?before))) =
      [Await 0, Header [''Build''] ''a'', Stream ''a'', Await 1, Header [''Build''] ''b'', Stream ''b'']"
    by (simp add: example_defs walker_defs)
  have stage: "resolveStagePod exampleOptions tektonEnv exampleRun emptyStage (snd (the ?before)) =
      (Inr emptyStagePod, snd (the ?before)) \<and> InitContainers emptyStagePod = []"
    by (simp add: resolveStagePod_def emptyStage_def emptyStagePod_def examplePod_def)
  have legacy: "bp_Pod (CreateBuildPodInfo legacyEnv (examplePod ''c-4'' [] [])) = Some (examplePod ''c-4'' [] []) \<and>
      InitContainers (examplePod ''c-4'' [] []) = []"
    by (simp add: CreateBuildPodInfo_def examplePod_def)
  from before stage legacy
    no_init_containers_is_terminal
      [where opts = exampleOptions and env = tektonEnv and pr = exampleRun
         and name = "''org/c/PR-7 #4''" and suffix = "[]"
         and before = "take 1 (pr_Stages exampleRun)" and w = startWorld
         and ?w1.0 = "snd (the ?before)" and stage = emptyStage and pod = emptyStagePod
         and ?w2.0 = "snd (the ?before)" and after = "drop 1 (pr_Stages exampleRun)"]
    no_init_containers_is_terminal
      [where env = legacyEnv and name = "''org/c/PR-7 #4''" and suffix = "[]"
         and b = "CreateBuildPodInfo legacyEnv (examplePod ''c-4'' [] [])"
         and pod = "examplePod ''c-4'' [] []" and w = startWorld]
  have "walkStages exampleOptions tektonEnv exampleRun ''org/c/PR-7 #4'' []
        (take 1 (pr_Stages exampleRun) @ emptyStage # drop 1 (pr_Stages exampleRun)) startWorld =
      Some (Some (NoInitContainers (pod_Name emptyStagePod) ''org/c/PR-7 #4''), snd (the ?before))"
    and "buildPodLog legacyEnv ''org/c/PR-7 #4'' [] (CreateBuildPodInfo legacyEnv (examplePod ''c-4'' [] [])) startWorld =
      Some (Some (NoInitContainers (pod_Name (examplePod ''c-4'' [] [])) ''org/c/PR-7 #4''), startWorld)"
    by blast+
  with ok steps show ?thesis
    by (simp add: emptyStagePod_def examplePod_def buildPodLog_def CreateBuildPodInfo_def)
qed

section \<open>Selecting the build: the wait for a pipeline\<close>

lemma sleeps_Nil [simp]: "sleeps [] = []"
  by (simp add: sleeps_def List.map_filter_simps)

lemma sleeps_append [simp]: "sleeps (xs @ ys) = sleeps xs @ sleeps ys"
  by (simp add: sleeps_def List.map_filter_def)

lemma sleeps_single [simp]: "sleeps [e] = (case sleepOf e of None \<Rightarrow> [] | Some d \<Rightarrow> [d])"
  by (simp add: sleeps_def List.map_filter_simps split: option.splits)

text \<open>A reload takes no time, sleeps never, and finds what the time of the call decides.\<close>

lemma collectPipelineRunInfos_time:
  "now (snd (collectPipelineRunInfos env acc prs w)) = now w \<and>
   sleeps (trace (snd (collectPipelineRunInfos env acc prs w))) = sleeps (trace w) \<and>
   fst (collectPipelineRunInfos env acc prs w) = fst (collectPipelineRunInfos env acc prs (worldAt (now w)))"
  by (induction prs arbitrary: acc) (auto simp add: worldAt_def split: sum.splits option.splits)

lemma loadCatalog_time:
  "now (snd (loadCatalog tektonEnabled opts env w)) = now w \<and>
   sleeps (trace (snd (loadCatalog tektonEnabled opts env w))) = sleeps (trace w) \<and>
   fst (loadCatalog tektonEnabled opts env w) = fst (loadCatalog tektonEnabled opts env (worldAt (now w)))"
proof (cases tektonEnabled)
  case False
  then show ?thesis
    by (auto simp add: loadCatalog_def loadBuilds_def worldAt_def Let_def split: sum.splits)
next
  case True
  show ?thesis
  proof (cases "pipelineRuns env (now w)")
    case (Inl msg)
    with True show ?thesis
      by (simp add: loadCatalog_def loadPipelines_def worldAt_def)
  next
    case (Inr prs)
    obtain x w1 where c: "collectPipelineRunInfos env [] prs w = (x, w1)"
      by fastforce
    obtain x' w1' where c': "collectPipelineRunInfos env [] prs (worldAt (now w)) = (x', w1')"
      by fastforce
    from collectPipelineRunInfos_time [of env "[]" prs w] c c'
    have "now w1 = now w \<and> sleeps (trace w1) = sleeps (trace w) \<and> x = x'"
      by simp
    with True Inr c c' show ?thesis
      by (cases x') (simp_all add: loadCatalog_def loadPipelines_def worldAt_def Let_def)
  qed
qed

lemma lookupBuild_None: "lookupBuild c name suffix = (None, suffix1) \<Longrightarrow> suffix1 = suffix"
  by (auto simp add: lookupBuild_def split: option.splits)

lemma reloadAndLookup_time:
  "now (snd (reloadAndLookup tektonEnabled opts env name [] w)) = now w \<and>
   sleeps (trace (snd (reloadAndLookup tektonEnabled opts env name [] w))) = sleeps (trace w) \<and>
   (case matchAt tektonEnabled opts env name (now w) of
      Some found \<Rightarrow> fst (reloadAndLookup tektonEnabled opts env name [] w) = Inr found
    | None \<Rightarrow> \<exists>err. fst (reloadAndLookup tektonEnabled opts env name [] w) = Inl err)"
proof -
  obtain c r w1 where l: "loadCatalog tektonEnabled opts env w = ((c, r), w1)"
    by (metis prod.collapse)
  from loadCatalog_time [of tektonEnabled opts env w] l
  have "now w1 = now w" "sleeps (trace w1) = sleeps (trace w)"
    "fst (loadCatalog tektonEnabled opts env (worldAt (now w))) = (c, r)" by simp_all
  with l show ?thesis
    by (auto simp add: reloadAndLookup_def matchAt_def split: option.splits prod.splits)
qed

lemma sleeps_sleep [simp]: "sleeps (trace (sleep d w)) = sleeps (trace w) @ [d]"
  by (simp add: sleep_def)

lemma sleeps_emit_info [simp]: "sleeps (trace (emit (InfoWaitingForPipeline name) w)) = sleeps (trace w)"
  by (simp add: emit_def)

lemma replicate_snoc: "replicate k x @ [x] = x # replicate k x"
  by (induction k) simp_all

lemma RetryFrom_succeeds:
  assumes timed: "\<And>w. now (snd (f w)) = now w \<and> sleeps (trace (snd (f w))) = sleeps (trace w)"
    and pos: "0 < interval"
  shows "(\<And>w j. j < k \<Longrightarrow> now w = start + j * interval \<Longrightarrow> \<exists>err. fst (f w) = Inl err) \<Longrightarrow>
     (\<And>w. now w = start + k * interval \<Longrightarrow> fst (f w) = Inr v) \<Longrightarrow>
     (\<forall>j<k. elapsed + j * interval < maxElapsedTime) \<Longrightarrow>
     now w = start \<Longrightarrow>
     \<exists>w'. RetryFrom interval maxElapsedTime elapsed f w = (Inr v, w') \<and>
          now w' = now w + k * interval \<and>
          sleeps (trace w') = sleeps (trace w) @ replicate k interval"
proof (induction k arbitrary: w elapsed start)
  case 0
  from "0.prems"(2) [of w] "0.prems"(4) have "fst (f w) = Inr v" by simp
  then obtain w1 where fw: "f w = (Inr v, w1)" by (cases "f w") auto
  have "RetryFrom interval maxElapsedTime elapsed f w = (Inr v, w1)"
    by (subst RetryFrom.simps) (simp add: fw)
  with timed [of w] fw show ?case by simp
next
  case (Suc k)
  from Suc.prems(1) [of 0 w] Suc.prems(4) obtain err where "fst (f w) = Inl err" by auto
  then obtain w0 where fw: "f w = (Inl err, w0)" by (cases "f w") auto
  let ?w1 = "sleep interval w0"
  from Suc.prems(3) have notyet: "\<not> (maxElapsedTime \<le> elapsed \<or> interval = 0)"
    using pos by (auto dest: spec [of _ 0])
  have step: "RetryFrom interval maxElapsedTime elapsed f w =
      RetryFrom interval maxElapsedTime (elapsed + interval) f ?w1"
    using notyet by (subst RetryFrom.simps) (simp add: fw)
  from timed [of w] fw have t0: "now w0 = now w" "sleeps (trace w0) = sleeps (trace w)"
    by simp_all
  have now1: "now ?w1 = start + interval"
    using t0 Suc.prems(4) by simp
  have "\<exists>w'. RetryFrom interval maxElapsedTime (elapsed + interval) f ?w1 = (Inr v, w') \<and>
          now w' = now ?w1 + k * interval \<and>
          sleeps (trace w') = sleeps (trace ?w1) @ replicate k interval"
  proof (rule Suc.IH [where start = "start + interval"])
    show "\<exists>err. fst (f w') = Inl err" if "j < k" "now w' = start + interval + j * interval" for w' j
      using Suc.prems(1) [of "Suc j" w'] that by simp
    show "fst (f w') = Inr v" if "now w' = start + interval + k * interval" for w'
      using Suc.prems(2) [of w'] that by simp
    show "\<forall>j<k. elapsed + interval + j * interval < maxElapsedTime"
    proof (intro allI impI)
      fix j assume "j < k"
      then have "Suc j < Suc k" by simp
      with Suc.prems(3) have "elapsed + Suc j * interval < maxElapsedTime" by blast
      then show "elapsed + interval + j * interval < maxElapsedTime" by simp
    qed
    show "now ?w1 = start + interval" by (rule now1)
  qed
  then obtain w' where w': "RetryFrom interval maxElapsedTime (elapsed + interval) f ?w1 = (Inr v, w')"
    "now w' = now ?w1 + k * interval"
    "sleeps (trace w') = sleeps (trace ?w1) @ replicate k interval" by blast
  from w' step t0 Suc.prems(4) show ?case
    by (simp add: now1 replicate_snoc)
qed

lemma RetryFrom_times_out_aux:
  "(\<forall>w. now (snd (f w)) = now w \<and> sleeps (trace (snd (f w))) = sleeps (trace w)) \<Longrightarrow>
   0 < interval \<Longrightarrow>
   (\<forall>w. \<exists>err. fst (f w) = Inl err) \<Longrightarrow>
   \<exists>n err w'. RetryFrom interval maxElapsedTime elapsed f w = (Inl (Timeout (elapsed + n * interval) err), w') \<and>
      maxElapsedTime \<le> elapsed + n * interval \<and>
      now w' = now w + n * interval \<and>
      sleeps (trace w') = sleeps (trace w) @ replicate n interval"
proof (induction interval maxElapsedTime elapsed f w rule: RetryFrom.induct)
  case (1 interval maxElapsedTime elapsed f w)
  from "1.prems"(3) obtain err where "fst (f w) = Inl err" by blast
  then obtain w0 where fw: "f w = (Inl err, w0)" by (cases "f w") auto
  from "1.prems"(1) fw have t: "now w0 = now w" "sleeps (trace w0) = sleeps (trace w)"
    by (metis snd_conv)+
  show ?case
  proof (cases "maxElapsedTime \<le> elapsed \<or> interval = 0")
    case True
    with "1.prems"(2) have "maxElapsedTime \<le> elapsed" by simp
    moreover have "RetryFrom interval maxElapsedTime elapsed f w = (Inl (Timeout elapsed err), w0)"
      using True by (subst RetryFrom.simps) (simp add: fw)
    ultimately show ?thesis
      using t by (intro exI [of _ 0] exI [of _ err] exI [of _ w0]) simp
  next
    case False
    let ?w1 = "sleep interval w0"
    have step: "RetryFrom interval maxElapsedTime elapsed f w =
      RetryFrom interval maxElapsedTime (elapsed + interval) f ?w1"
      using False by (subst RetryFrom.simps) (simp add: fw)
    from "1.IH" [OF fw [symmetric] refl False "1.prems"]
    obtain n err' w' where
      r: "RetryFrom interval maxElapsedTime (elapsed + interval) f ?w1 =
            (Inl (Timeout (elapsed + interval + n * interval) err'), w')"
         "maxElapsedTime \<le> elapsed + interval + n * interval"
         "now w' = now ?w1 + n * interval"
         "sleeps (trace w') = sleeps (trace ?w1) @ replicate n interval"
      by blast
    from r step t show ?thesis
      by (intro exI [of _ "Suc n"] exI [of _ err'] exI [of _ w']) (simp add: replicate_snoc)
  qed
qed

lemma reloadAndLookup_absent:
  "matchAt tektonEnabled opts env name (now v) = None \<Longrightarrow>
     \<exists>err. fst (reloadAndLookup tektonEnabled opts env name [] v) = Inl err"
  using reloadAndLookup_time [of tektonEnabled opts env name v] by simp

lemma reloadAndLookup_found:
  "matchAt tektonEnabled opts env name (now v) = Some found \<Longrightarrow>
     fst (reloadAndLookup tektonEnabled opts env name [] v) = Inr found"
  using reloadAndLookup_time [of tektonEnabled opts env name v] by simp

text \<open>
  C6. A name from the arguments that is in neither index of the catalog, with waiting
  asked for: the catalog is reloaded at the start and then after every sleep of the
  retry interval. When from some time before the timeout on a reload finds the name,
  the first reload that finds it is made less than one interval after that time and
  its descriptor is returned; when no reload ever finds the name, the result is the
  timeout error, after sleeps that add up to at least the timeout.
\<close>

theorem resolveName_waits_for_the_pipeline:
  assumes wait: "Wait opts" and pos: "0 < retryInterval env"
    and absent: "lookupBuild c name [] = (None, sfx)"
  shows
   "(T < WaitForPipelineDuration opts \<and>
     (\<forall>t \<ge> now w + T. matchAt tektonEnabled opts env name t \<noteq> None) \<longrightarrow>
      (\<exists>k build suffix w'.
         resolveName tektonEnabled opts env False c name w = (Inr (name, suffix, build), w') \<and>
         matchAt tektonEnabled opts env name (now w + k * retryInterval env) = Some (build, suffix) \<and>
         k * retryInterval env < T + retryInterval env \<and>
         now w' = now w + k * retryInterval env \<and>
         sleeps (trace w') = sleeps (trace w) @ replicate k (retryInterval env))) \<and>
    ((\<forall>t. matchAt tektonEnabled opts env name t = None) \<longrightarrow>
      (\<exists>n err w'.
         resolveName tektonEnabled opts env False c name w =
           (Inl (Timeout (n * retryInterval env) err), w') \<and>
         WaitForPipelineDuration opts \<le> n * retryInterval env \<and>
         now w' = now w + n * retryInterval env \<and>
         sleeps (trace w') = sleeps (trace w) @ replicate n (retryInterval env)))"
proof (intro conjI impI)
  let ?iv = "retryInterval env"
  let ?f = "reloadAndLookup tektonEnabled opts env name []"
  let ?w0 = "emit (InfoWaitingForPipeline name) w"
  from absent have sfx: "sfx = []" by (rule lookupBuild_None)
  have timed: "now (snd (?f v)) = now v \<and> sleeps (trace (snd (?f v))) = sleeps (trace v)" for v
    using reloadAndLookup_time [of tektonEnabled opts env name v] by simp
  have resolve: "resolveName tektonEnabled opts env False c name w =
      (case RetryFrom ?iv (WaitForPipelineDuration opts) 0 ?f ?w0 of
         (Inl err, w1) \<Rightarrow> (Inl err, w1)
       | (Inr (build, suffix1), w1) \<Rightarrow> (Inr (name, suffix1, build), w1))"
    using wait absent sfx by (simp add: resolveName_def Retry_def)
  {
    assume a: "T < WaitForPipelineDuration opts \<and>
     (\<forall>t \<ge> now w + T. matchAt tektonEnabled opts env name t \<noteq> None)"
    let ?P = "\<lambda>j. matchAt tektonEnabled opts env name (now w + j * ?iv) \<noteq> None"
    define k where "k = (LEAST j. ?P j)"
    have "now w + T \<le> now w + T * ?iv" using pos by simp
    with a have "?P T" by blast
    then have Pk: "?P k" unfolding k_def by (rule LeastI)
    have before: "matchAt tektonEnabled opts env name (now w + j * ?iv) = None" if "j < k" for j
    proof -
      from that have "\<not> ?P j" unfolding k_def by (rule not_less_Least)
      then show ?thesis by blast
    qed
    have early: "j * ?iv < T" if "j < k" for j
    proof (rule ccontr)
      assume "\<not> j * ?iv < T"
      then have "now w + T \<le> now w + j * ?iv" by simp
      with a have "?P j" by blast
      with before [OF that] show False by blast
    qed
    from Pk obtain build suffix where
      found: "matchAt tektonEnabled opts env name (now w + k * ?iv) = Some (build, suffix)"
      by (cases "matchAt tektonEnabled opts env name (now w + k * ?iv)") auto
    have "\<exists>w'. RetryFrom ?iv (WaitForPipelineDuration opts) 0 ?f ?w0 = (Inr (build, suffix), w') \<and>
          now w' = now ?w0 + k * ?iv \<and>
          sleeps (trace w') = sleeps (trace ?w0) @ replicate k ?iv"
    proof (rule RetryFrom_succeeds [where start = "now w"])
      show "now (snd (?f v)) = now v \<and> sleeps (trace (snd (?f v))) = sleeps (trace v)" for v
        by (rule timed)
      show "0 < ?iv" by (rule pos)
      show "\<exists>err. fst (?f v) = Inl err" if "j < k" "now v = now w + j * ?iv" for v j
        using reloadAndLookup_absent [of tektonEnabled opts env name v] before [OF that(1)] that(2)
        by (simp only:)
      show "fst (?f v) = Inr (build, suffix)" if "now v = now w + k * ?iv" for v
        using reloadAndLookup_found [of tektonEnabled opts env name v] found that by simp
      show "\<forall>j<k. 0 + j * ?iv < WaitForPipelineDuration opts"
        using early a by fastforce
      show "now ?w0 = now w" by simp
    qed
    then obtain w' where w': "RetryFrom ?iv (WaitForPipelineDuration opts) 0 ?f ?w0 = (Inr (build, suffix), w')"
      "now w' = now ?w0 + k * ?iv" "sleeps (trace w') = sleeps (trace ?w0) @ replicate k ?iv"
      by blast
    have bound: "k * ?iv < T + ?iv"
    proof (cases k)
      case 0
      with pos show ?thesis by simp
    next
      case (Suc k')
      then have "k' * ?iv < T" using early [of k'] by simp
      with Suc show ?thesis by simp
    qed
    from w' found bound resolve
    show "\<exists>k build suffix w'.
         resolveName tektonEnabled opts env False c name w = (Inr (name, suffix, build), w') \<and>
         matchAt tektonEnabled opts env name (now w + k * ?iv) = Some (build, suffix) \<and>
         k * ?iv < T + ?iv \<and>
         now w' = now w + k * ?iv \<and>
         sleeps (trace w') = sleeps (trace w) @ replicate k ?iv"
      by (intro exI [of _ k] exI [of _ build] exI [of _ suffix] exI [of _ w']) simp
  }
  {
    assume never: "\<forall>t. matchAt tektonEnabled opts env name t = None"
    have fails: "\<forall>v. \<exists>err. fst (?f v) = Inl err"
    proof
      fix v
      from reloadAndLookup_absent [of tektonEnabled opts env name v] never
      show "\<exists>err. fst (?f v) = Inl err" by simp
    qed
    from RetryFrom_times_out_aux [of ?f ?iv "WaitForPipelineDuration opts" 0 ?w0] timed pos fails
    obtain n err w' where
      r: "RetryFrom ?iv (WaitForPipelineDuration opts) 0 ?f ?w0 = (Inl (Timeout (0 + n * ?iv) err), w')"
         "WaitForPipelineDuration opts \<le> 0 + n * ?iv"
         "now w' = now ?w0 + n * ?iv"
         "sleeps (trace w') = sleeps (trace ?w0) @ replicate n ?iv"
      by blast
    from r resolve
    show "\<exists>n err w'.
         resolveName tektonEnabled opts env False c name w = (Inl (Timeout (n * ?iv) err), w') \<and>
         WaitForPipelineDuration opts \<le> n * ?iv \<and>
         now w' = now w + n * ?iv \<and>
         sleeps (trace w') = sleeps (trace w) @ replicate n ?iv"
      by (intro exI [of _ n] exI [of _ err] exI [of _ w']) simp
  }
qed

lemmas select_defs =
  resolveName_def Retry_def reloadAndLookup_def loadCatalog_def lookupBuild_def matchAt_def worldAt_def
  waitOptions_def gainingEnv_def RetryFrom.simps sleep_def

theorem resolveName_waits_for_the_pipeline_witness:
  "fst (resolveName False waitOptions gainingEnv False emptyCatalog ''org/b/master'' startWorld) =
     Inr (''org/b/master'', '' #3'', BuildPod (CreateBuildPodInfo legacyEnv (examplePod ''b-3'' [''git''] []))) \<and>
   (\<exists>k build suffix w'.
      resolveName False waitOptions gainingEnv False emptyCatalog ''org/b/master'' startWorld =
        (Inr (''org/b/master'', suffix, build), w') \<and>
      k * retryInterval gainingEnv < 4 + retryInterval gainingEnv \<and>
      now w' = now startWorld + k * retryInterval gainingEnv \<and>
      sleeps (trace w') = sleeps (trace startWorld) @ replicate k (retryInterval gainingEnv)) \<and>
   (\<exists>n err w'.
      resolveName False waitOptions quietEnv False emptyCatalog ''org/b/master'' startWorld =
        (Inl (Timeout (n * retryInterval quietEnv) err), w') \<and>
      WaitForPipelineDuration waitOptions \<le> n * retryInterval quietEnv \<and>
      now w' = now startWorld + n * retryInterval quietEnv)"
proof -
  have eval: "fst (resolveName False waitOptions gainingEnv False emptyCatalog ''org/b/master'' startWorld) =
     Inr (''org/b/master'', '' #3'', BuildPod (CreateBuildPodInfo legacyEnv (examplePod ''b-3'' [''git''] [])))"
    by (simp add: select_defs example_defs loader_defs)
  have wait: "Wait waitOptions"
    by (simp add: waitOptions_def)
  have pos: "0 < retryInterval gainingEnv" "0 < retryInterval quietEnv"
    by (simp_all add: gainingEnv_def legacyEnv_def quietEnv_def)
  have absent: "lookupBuild emptyCatalog ''org/b/master'' [] = (None, [])"
    by (simp add: lookupBuild_def emptyCatalog_def)
  have gains: "(4::nat) < WaitForPipelineDuration waitOptions \<and>
     (\<forall>t \<ge> now startWorld + 4. matchAt False waitOptions gainingEnv ''org/b/master'' t \<noteq> None)"
    by (simp add: select_defs example_defs loader_defs)
  have never: "\<forall>t. matchAt False waitOptions quietEnv ''org/b/master'' t = None"
    by (simp add: select_defs example_defs loader_defs)
  from gains never
    resolveName_waits_for_the_pipeline [OF wait pos(1) absent, of 4 startWorld False]
    resolveName_waits_for_the_pipeline [OF wait pos(2) absent, of 4 startWorld False]
  have "\<exists>k build suffix w'.
      resolveName False waitOptions gainingEnv False emptyCatalog ''org/b/master'' startWorld =
        (Inr (''org/b/master'', suffix, build), w') \<and>
      k * retryInterval gainingEnv < 4 + retryInterval gainingEnv \<and>
      now w' = now startWorld + k * retryInterval gainingEnv \<and>
      sleeps (trace w') = sleeps (trace startWorld) @ replicate k (retryInterval gainingEnv)"
    and "\<exists>n err w'.
      resolveName False waitOptions quietEnv False emptyCatalog ''org/b/master'' startWorld =
        (Inl (Timeout (n * retryInterval quietEnv) err), w') \<and>
      WaitForPipelineDuration waitOptions \<le> n * retryInterval quietEnv \<and>
      now w' = now startWorld + n * retryInterval quietEnv"
    by blast+
  with eval show ?thesis by blast
qed

section \<open>The whole command on the examples\<close>

text \<open>
  \<^verbatim>\<open>getProwBuildLog\<close> from the options to the last log tail: a pipeline run picked
  interactively; a legacy build that appears while the command waits, and whose pod is
  gone when its log is asked for; and a pipeline that never appears.
\<close>

lemmas command_defs = getProwBuildLog_def useCurrentFolder_def selectBuild_def

lemma getProwBuildLog_interactive_example:
  "getProwBuildLog exampleOptions tektonEnv True startWorld =
     Some (None,
       \<lparr>now = 3,
        trace =
          [InfoBuildLogsFor ''org/app/master #1'',
           GetPod ''build-pod'', CallWaitForInitContainerToStart ''build-pod'' 0,
           InfoGettingStageLog ''org/app/master #1'' [''Build''] ''a'', CallTailLogs ''build-pod'' ''a'',
           GetPod ''build-pod'', CallWaitForInitContainerToStart ''build-pod'' 1,
           InfoGettingStageLog ''org/app/master #1'' [''Build''] ''b'', CallTailLogs ''build-pod'' ''b'',
           GetPod ''test-pod'', CallWaitForInitContainerToStart ''test-pod'' 0,
           InfoGettingStageLog ''org/app/master #1'' [''Test''] ''c'', CallTailLogs ''test-pod'' ''c'']\<rparr>)"
  by (simp add: command_defs select_defs example_defs loader_defs walker_defs)

lemma getProwBuildLog_waiting_example:
  "getProwBuildLog waitOptions gainingEnv False startWorld =
     Some (Some (FailedToFindPod (QueryFailure ''not found'')),
       \<lparr>now = 4,
        trace =
          [InfoWaitingForPipeline ''org/b/master'', Sleep 2, Sleep 2,
           InfoBuildLogsFor ''org/b/master #3'', GetPod ''b-3'']\<rparr>)"
  by (simp add: command_defs select_defs example_defs loader_defs walker_defs)

lemma getProwBuildLog_timeout_example:
  "getProwBuildLog waitOptions quietEnv False startWorld =
     Some (Some (Timeout 6 NoKnativeBuilds),
       \<lparr>now = 6, trace = [InfoWaitingForPipeline ''org/b/master'', Sleep 2, Sleep 2, Sleep 2]\<rparr>)"
  by (simp add: command_defs select_defs example_defs loader_defs walker_defs)

end
